theory Spec2Isabelle
  imports Main "HOL-Library.Word"
begin

section \<open>Go values used by the client\<close>

text \<open>
  The client of \<^verbatim>\<open>pkg/healthchecksio/client.go\<close> is a thin layer over Go's standard
  library: \<^verbatim>\<open>net/url\<close> builds the addresses, \<^verbatim>\<open>strconv\<close> and \<^verbatim>\<open>fmt\<close> print numbers,
  \<^verbatim>\<open>encoding/json\<close> moves structs in and out of bodies. What the client does is what these
  calls do, so the library functions it calls are written out here as they behave in
  Go 1.20 to 1.23. A Go string is a sequence of bytes and so is a \<^typ>\<open>string\<close>.
\<close>

subsection \<open>Bytes and strings\<close>

definition byte :: "char \<Rightarrow> nat" where
  "byte c = of_char c"

definition isLower :: "char \<Rightarrow> bool" where
  "isLower c = (97 \<le> byte c \<and> byte c \<le> 122)"

definition isUpper :: "char \<Rightarrow> bool" where
  "isUpper c = (65 \<le> byte c \<and> byte c \<le> 90)"

definition isDigit :: "char \<Rightarrow> bool" where
  "isDigit c = (48 \<le> byte c \<and> byte c \<le> 57)"

definition isAlnum :: "char \<Rightarrow> bool" where
  "isAlnum c = (isLower c \<or> isUpper c \<or> isDigit c)"

text \<open>\<^verbatim>\<open>strings.ToLower\<close> on the ASCII letters (a scheme has no other letters).\<close>

definition lowerByte :: "char \<Rightarrow> char" where
  "lowerByte c = (if isUpper c then char_of (byte c + 32) else c)"

definition HasPrefix :: "string \<Rightarrow> string \<Rightarrow> bool" where
  "HasPrefix s p = (take (length p) s = p)"

definition HasSuffix :: "string \<Rightarrow> string \<Rightarrow> bool" where
  "HasSuffix s p = (length p \<le> length s \<and> drop (length s - length p) s = p)"

text \<open>\<^verbatim>\<open>strings.Cut(s, sep)\<close> for a one-byte separator: before, after, found.\<close>

fun Cut :: "string \<Rightarrow> char \<Rightarrow> string \<times> string \<times> bool" where
  "Cut [] sep = ([], [], False)"
| "Cut (c # cs) sep =
     (if c = sep then ([], cs, True)
      else (case Cut cs sep of (b, a, f) \<Rightarrow> (c # b, a, f)))"

text \<open>\<^verbatim>\<open>strings.LastIndex(s, sep)\<close> for a one-byte separator; \<open>None\<close> is Go's \<open>-1\<close>.\<close>

fun LastIndex :: "string \<Rightarrow> char \<Rightarrow> nat option" where
  "LastIndex [] sep = None"
| "LastIndex (c # cs) sep =
     (case LastIndex cs sep of
        Some i \<Rightarrow> Some (Suc i)
      | None \<Rightarrow> (if c = sep then Some 0 else None))"

text \<open>\<^verbatim>\<open>strings.Index(s, "%25")\<close>.\<close>

fun Index_pct25 :: "string \<Rightarrow> nat option" where
  "Index_pct25 [] = None"
| "Index_pct25 (c # cs) =
     (if HasPrefix (c # cs) ''%25'' then Some 0 else map_option Suc (Index_pct25 cs))"

text \<open>\<^verbatim>\<open>strings.Split(s, "/")\<close>: the pieces between the slashes, empty ones included.\<close>

fun split_slash :: "string \<Rightarrow> string list" where
  "split_slash [] = [[]]"
| "split_slash (c # cs) =
     (if c = CHR ''/'' then [] # split_slash cs
      else (c # hd (split_slash cs)) # tl (split_slash cs))"

text \<open>\<^verbatim>\<open>strings.Join(elems, sep)\<close>.\<close>

fun Join_with :: "string \<Rightarrow> string list \<Rightarrow> string" where
  "Join_with sep [] = []"
| "Join_with sep [x] = x"
| "Join_with sep (x # y # ys) = x @ sep @ Join_with sep (y # ys)"

text \<open>Whether a string contains two slashes in a row.\<close>

fun double_slash :: "string \<Rightarrow> bool" where
  "double_slash (a # b # cs) = ((a = CHR ''/'' \<and> b = CHR ''/'') \<or> double_slash (b # cs))"
| "double_slash _ = False"

subsection \<open>Printing integers: \<^verbatim>\<open>strconv.Itoa\<close> and \<^verbatim>\<open>%d\<close>\<close>

fun digits :: "nat \<Rightarrow> string" where
  "digits n = (if n < 10 then [char_of (48 + n)] else digits (n div 10) @ [char_of (48 + n mod 10)])"

declare digits.simps [simp del]

definition fmt_d :: "int \<Rightarrow> string" where
  "fmt_d i = (if i < 0 then CHR ''-'' # digits (nat (- i)) else digits (nat i))"

text \<open>
  Go's \<^verbatim>\<open>int\<close> and \<^verbatim>\<open>int64\<close> are 64-bit two's complement on the platforms the client
  is built for; \<^verbatim>\<open>strconv.Itoa\<close> prints the signed value in decimal.
\<close>

type_synonym go_int = "64 word"

definition Itoa :: "go_int \<Rightarrow> string" where
  "Itoa n = fmt_d (sint n)"

subsection \<open>Errors\<close>

text \<open>
  A Go \<^verbatim>\<open>error\<close> is modelled by the call that made it. \<open>ErrorString\<close> is the value of
  \<^verbatim>\<open>errors.New\<close> and of \<^verbatim>\<open>fmt.Errorf\<close> when the whole text is known; \<open>Errorf_v\<close> and
  \<open>Errorf_w\<close> are \<^verbatim>\<open>fmt.Errorf(prefix + "%v", err)\<close> and \<^verbatim>\<open>fmt.Errorf(prefix + "%w", err)\<close>,
  whose text is the prefix followed by the text of \<open>err\<close>. \<open>InvalidPort\<close> and
  \<open>MissingBracket\<close> are the two errors of \<^verbatim>\<open>parseHost\<close> (an invalid port after the
  host, a bracket that is not closed). \<open>URL_Error\<close> is \<^verbatim>\<open>&url.Error{Op, URL, Err}\<close>. \<open>DecodeError\<close> is an error returned by a JSON decoder,
  \<open>MarshalError\<close> one returned by \<^verbatim>\<open>json.Marshal\<close>, \<open>DoError\<close> one returned by the HTTP
  client's \<^verbatim>\<open>Do\<close>, \<open>ReadError\<close> one returned while reading a body. \<open>Panic\<close> is a run-time
  panic, which is not a returned value in Go.
\<close>

datatype error =
    ErrorString string
  | Errorf_v string error
  | Errorf_w string error
  | EscapeError string
  | InvalidHostError string
  | InvalidPort string
  | MissingBracket
  | URL_Error string string error
  | DecodeError string
  | MarshalError string
  | DoError string
  | ReadError string
  | Panic string

subsection \<open>\<^verbatim>\<open>path.Clean\<close> and \<^verbatim>\<open>path.Join\<close>\<close>

text \<open>
  \<^verbatim>\<open>path.Clean\<close> works on the elements between slashes: empty elements and \<^verbatim>\<open>.\<close> are
  dropped, \<^verbatim>\<open>..\<close> removes the element before it, a \<^verbatim>\<open>..\<close> with nothing to remove is
  dropped in a rooted path and kept in a relative one. \<open>clean_step\<close> is one element's
  effect on the elements kept so far.
\<close>

definition clean_step :: "bool \<Rightarrow> string list \<Rightarrow> string \<Rightarrow> string list" where
  "clean_step rooted st c =
     (if c = [] \<or> c = ''.'' then st
      else if c = ''..'' then
        (if st \<noteq> [] \<and> last st \<noteq> ''..'' then butlast st
         else if rooted then st else st @ [''..''])
      else st @ [c])"

definition Clean :: "string \<Rightarrow> string" where
  "Clean p =
     (if p = [] then ''.''
      else
        let rooted = (hd p = CHR ''/'');
            body = Join_with ''/'' (foldl (clean_step rooted) [] (split_slash p))
        in if rooted then CHR ''/'' # body
           else if body = [] then ''.'' else body)"

text \<open>The buffer \<^verbatim>\<open>path.Join\<close> fills before it cleans it.\<close>

fun join_buf :: "string \<Rightarrow> string list \<Rightarrow> string" where
  "join_buf buf [] = buf"
| "join_buf buf (e # es) =
     join_buf (if buf \<noteq> [] \<or> e \<noteq> []
               then (if buf \<noteq> [] then buf @ ''/'' else buf) @ e
               else buf) es"

definition path_Join :: "string list \<Rightarrow> string" where
  "path_Join elem = (if concat elem = [] then [] else Clean (join_buf [] elem))"

subsection \<open>\<^verbatim>\<open>net/url\<close>: escaping\<close>

datatype encoding =
    encodePath | encodePathSegment | encodeHost | encodeZone
  | encodeUserPassword | encodeQueryComponent | encodeFragment

definition shouldEscape :: "char \<Rightarrow> encoding \<Rightarrow> bool" where
  "shouldEscape c mode =
     (if isAlnum c then False
      else if (mode = encodeHost \<or> mode = encodeZone) \<and> c \<in> set (''!$&()*+,;=:[]<>'' @ [CHR 0x27, CHR 0x22]) then False
      else if c \<in> set ''-_.~'' then False
      else if c \<in> set ''$&+,/:;=?@'' \<and> mode = encodePath then c = CHR ''?''
      else if c \<in> set ''$&+,/:;=?@'' \<and> mode = encodePathSegment then c \<in> set ''/;,?''
      else if c \<in> set ''$&+,/:;=?@'' \<and> mode = encodeUserPassword then c \<in> set ''@/?:''
      else if c \<in> set ''$&+,/:;=?@'' \<and> mode = encodeQueryComponent then True
      else if c \<in> set ''$&+,/:;=?@'' \<and> mode = encodeFragment then False
      else if mode = encodeFragment \<and> c \<in> set ''!()*'' then False
      else True)"

definition ishex :: "char \<Rightarrow> bool" where
  "ishex c = (isDigit c \<or> (97 \<le> byte c \<and> byte c \<le> 102) \<or> (65 \<le> byte c \<and> byte c \<le> 70))"

definition unhex :: "char \<Rightarrow> nat" where
  "unhex c =
     (if isDigit c then byte c - 48
      else if 97 \<le> byte c \<and> byte c \<le> 102 then byte c - 97 + 10
      else if 65 \<le> byte c \<and> byte c \<le> 70 then byte c - 65 + 10
      else 0)"

definition upperhex :: "nat \<Rightarrow> char" where
  "upperhex n = ''0123456789ABCDEF'' ! n"

text \<open>
  \<^verbatim>\<open>unescape\<close>: Go checks the whole string first and converts it afterwards; the first
  malformed place from the left decides the error, as it does here.
\<close>

fun unescape :: "string \<Rightarrow> encoding \<Rightarrow> error + string" where
  "unescape [] mode = Inr []"
| "unescape (c # cs) mode =
     (if c = CHR ''%'' then
        (case cs of
           a # b # rest \<Rightarrow>
             if \<not> ishex a \<or> \<not> ishex b then Inl (EscapeError (take 3 (c # cs)))
             else if mode = encodeHost \<and> unhex a < 8 \<and> [c, a, b] \<noteq> ''%25''
               then Inl (EscapeError [c, a, b])
             else if mode = encodeZone \<and> [c, a, b] \<noteq> ''%25''
                     \<and> char_of (unhex a * 16 + unhex b) \<noteq> CHR '' ''
                     \<and> shouldEscape (char_of (unhex a * 16 + unhex b)) encodeHost
               then Inl (EscapeError [c, a, b])
             else (case unescape rest mode of
                     Inl e \<Rightarrow> Inl e
                   | Inr r \<Rightarrow> Inr (char_of (unhex a * 16 + unhex b) # r))
         | _ \<Rightarrow> Inl (EscapeError (take 3 (c # cs))))
      else if c = CHR ''+'' then
        (case unescape cs mode of
           Inl e \<Rightarrow> Inl e
         | Inr r \<Rightarrow> Inr ((if mode = encodeQueryComponent then CHR '' '' else c) # r))
      else if (mode = encodeHost \<or> mode = encodeZone) \<and> byte c < 128 \<and> shouldEscape c encodeHost
        then Inl (InvalidHostError [c])
      else (case unescape cs mode of Inl e \<Rightarrow> Inl e | Inr r \<Rightarrow> Inr (c # r)))"

fun escape :: "string \<Rightarrow> encoding \<Rightarrow> string" where
  "escape [] mode = []"
| "escape (c # cs) mode =
     (if c = CHR '' '' \<and> mode = encodeQueryComponent then CHR ''+'' # escape cs mode
      else if shouldEscape c mode
        then CHR ''%'' # upperhex (byte c div 16) # upperhex (byte c mod 16) # escape cs mode
      else c # escape cs mode)"

definition QueryEscape :: "string \<Rightarrow> string" where
  "QueryEscape s = escape s encodeQueryComponent"

definition validEncoded :: "string \<Rightarrow> encoding \<Rightarrow> bool" where
  "validEncoded s mode =
     list_all (\<lambda>c. c \<in> set (''!$&()*+,;=:@[]%'' @ [CHR 0x27]) \<or> \<not> shouldEscape c mode) s"

subsection \<open>\<^verbatim>\<open>net/url\<close>: the \<^verbatim>\<open>URL\<close> struct\<close>

record Userinfo =
  username :: string
  password :: string
  passwordSet :: bool

record URL =
  Scheme :: string
  Opaque :: string
  User :: "Userinfo option"
  Host :: string
  Path :: string
  RawPath :: string
  OmitHost :: bool
  ForceQuery :: bool
  RawQuery :: string
  Fragment :: string
  RawFragment :: string

definition emptyURL :: URL where
  "emptyURL = \<lparr>Scheme = [], Opaque = [], User = None, Host = [], Path = [], RawPath = [],
     OmitHost = False, ForceQuery = False, RawQuery = [], Fragment = [], RawFragment = []\<rparr>"

definition setPath :: "URL \<Rightarrow> string \<Rightarrow> error + URL" where
  "setPath u p =
     (case unescape p encodePath of
        Inl e \<Rightarrow> Inl e
      | Inr path \<Rightarrow>
          Inr (u\<lparr>Path := path, RawPath := (if p = escape path encodePath then [] else p)\<rparr>))"

definition EscapedPath :: "URL \<Rightarrow> string" where
  "EscapedPath u =
     (if RawPath u \<noteq> [] \<and> validEncoded (RawPath u) encodePath
         \<and> unescape (RawPath u) encodePath = Inr (Path u)
      then RawPath u
      else if Path u = ''*'' then ''*''
      else escape (Path u) encodePath)"

definition setFragment :: "URL \<Rightarrow> string \<Rightarrow> error + URL" where
  "setFragment u f =
     (case unescape f encodeFragment of
        Inl e \<Rightarrow> Inl e
      | Inr frag \<Rightarrow>
          Inr (u\<lparr>Fragment := frag,
                 RawFragment := (if f = escape frag encodeFragment then [] else f)\<rparr>))"

definition EscapedFragment :: "URL \<Rightarrow> string" where
  "EscapedFragment u =
     (if RawFragment u \<noteq> [] \<and> validEncoded (RawFragment u) encodeFragment
         \<and> unescape (RawFragment u) encodeFragment = Inr (Fragment u)
      then RawFragment u
      else escape (Fragment u) encodeFragment)"

definition Userinfo_String :: "Userinfo \<Rightarrow> string" where
  "Userinfo_String ui =
     escape (username ui) encodeUserPassword @
     (if passwordSet ui then CHR '':'' # escape (password ui) encodeUserPassword else [])"

text \<open>\<^verbatim>\<open>(*URL).String\<close>: scheme, authority, path, query and fragment put back together.\<close>

definition URL_String :: "URL \<Rightarrow> string" where
  "URL_String u =
     (let scheme = (if Scheme u \<noteq> [] then Scheme u @ '':'' else []);
          rest =
            (if Opaque u \<noteq> [] then scheme @ Opaque u
             else
               let authority =
                     (if Scheme u \<noteq> [] \<or> Host u \<noteq> [] \<or> User u \<noteq> None then
                        (if OmitHost u \<and> Host u = [] \<and> User u = None then []
                         else
                           (if Host u \<noteq> [] \<or> Path u \<noteq> [] \<or> User u \<noteq> None then ''//'' else []) @
                           (case User u of None \<Rightarrow> [] | Some ui \<Rightarrow> Userinfo_String ui @ ''@'') @
                           (if Host u \<noteq> [] then escape (Host u) encodeHost else []))
                      else []);
                   path = EscapedPath u;
                   buf = scheme @ authority @
                     (if path \<noteq> [] \<and> hd path \<noteq> CHR ''/'' \<and> Host u \<noteq> [] then ''/'' else []);
                   buf' = (if buf = [] \<and> CHR '':'' \<in> set (fst (Cut path CHR ''/'')) then ''./'' else buf)
               in buf' @ path)
      in rest @
         (if ForceQuery u \<or> RawQuery u \<noteq> [] then CHR ''?'' # RawQuery u else []) @
         (if Fragment u \<noteq> [] then CHR ''#'' # EscapedFragment u else []))"

text \<open>
  \<^verbatim>\<open>(*URL).JoinPath\<close>: the escaped path and the elements go through \<^verbatim>\<open>path.Join\<close>, a
  trailing slash of the last element is kept, and the result is stored with
  \<^verbatim>\<open>setPath\<close>, whose error Go discards: the path then stays what it was.
\<close>

definition JoinPath_path :: "URL \<Rightarrow> string list \<Rightarrow> string" where
  "JoinPath_path u elem =
     (let e0 = EscapedPath u;
          elem' = (if \<not> HasPrefix e0 ''/'' then (CHR ''/'' # e0) # elem else e0 # elem);
          p = (if \<not> HasPrefix e0 ''/'' then tl (path_Join elem') else path_Join elem')
      in if HasSuffix (last elem') ''/'' \<and> \<not> HasSuffix p ''/'' then p @ ''/'' else p)"

definition JoinPath :: "URL \<Rightarrow> string list \<Rightarrow> URL" where
  "JoinPath u elem =
     (case setPath u (JoinPath_path u elem) of Inl e \<Rightarrow> u | Inr u' \<Rightarrow> u')"

subsection \<open>\<^verbatim>\<open>net/url\<close>: \<^verbatim>\<open>Parse\<close>\<close>

fun getScheme_from :: "string \<Rightarrow> string \<Rightarrow> string \<Rightarrow> error + (string \<times> string)" where
  "getScheme_from rawURL seen [] = Inr ([], rawURL)"
| "getScheme_from rawURL seen (c # cs) =
     (if isLower c \<or> isUpper c then getScheme_from rawURL (seen @ [c]) cs
      else if isDigit c \<or> c \<in> set ''+-.'' then
        (if seen = [] then Inr ([], rawURL) else getScheme_from rawURL (seen @ [c]) cs)
      else if c = CHR '':'' then
        (if seen = [] then Inl (ErrorString ''missing protocol scheme'') else Inr (seen, cs))
      else Inr ([], rawURL))"

definition getScheme :: "string \<Rightarrow> error + (string \<times> string)" where
  "getScheme rawURL = getScheme_from rawURL [] rawURL"

definition validOptionalPort :: "string \<Rightarrow> bool" where
  "validOptionalPort port =
     (case port of [] \<Rightarrow> True | c # ds \<Rightarrow> c = CHR '':'' \<and> list_all isDigit ds)"

definition validUserinfo :: "string \<Rightarrow> bool" where
  "validUserinfo s = list_all (\<lambda>c. isAlnum c \<or> c \<in> set (''-._:~!$&()*+,;=%@'' @ [CHR 0x27])) s"

definition parseHost :: "string \<Rightarrow> error + string" where
  "parseHost host =
     (if HasPrefix host ''['' then
        (case LastIndex host CHR '']'' of
           None \<Rightarrow> Inl MissingBracket
         | Some i \<Rightarrow>
             if \<not> validOptionalPort (drop (Suc i) host) then Inl (InvalidPort (drop (Suc i) host))
             else
               (case Index_pct25 (take i host) of
                  Some zone \<Rightarrow>
                    (case unescape (take zone host) encodeHost of
                       Inl e \<Rightarrow> Inl e
                     | Inr host1 \<Rightarrow>
                         (case unescape (drop zone (take i host)) encodeZone of
                            Inl e \<Rightarrow> Inl e
                          | Inr host2 \<Rightarrow>
                              (case unescape (drop i host) encodeHost of
                                 Inl e \<Rightarrow> Inl e
                               | Inr host3 \<Rightarrow> Inr (host1 @ host2 @ host3))))
                | None \<Rightarrow> unescape host encodeHost))
      else
        (case LastIndex host CHR '':'' of
           Some i \<Rightarrow>
             if \<not> validOptionalPort (drop i host) then Inl (InvalidPort (drop i host))
             else unescape host encodeHost
         | None \<Rightarrow> unescape host encodeHost))"

definition parseUserinfo :: "string \<Rightarrow> error + Userinfo" where
  "parseUserinfo userinfo =
     (if \<not> validUserinfo userinfo then Inl (ErrorString ''net/url: invalid userinfo'')
      else if CHR '':'' \<notin> set userinfo then
        (case unescape userinfo encodeUserPassword of
           Inl e \<Rightarrow> Inl e
         | Inr n \<Rightarrow> Inr \<lparr>username = n, password = [], passwordSet = False\<rparr>)
      else
        (case Cut userinfo CHR '':'' of
           (n0, p0, _) \<Rightarrow>
             (case unescape n0 encodeUserPassword of
                Inl e \<Rightarrow> Inl e
              | Inr n \<Rightarrow>
                  (case unescape p0 encodeUserPassword of
                     Inl e \<Rightarrow> Inl e
                   | Inr pw \<Rightarrow> Inr \<lparr>username = n, password = pw, passwordSet = True\<rparr>))))"

definition parseAuthority :: "string \<Rightarrow> error + (Userinfo option \<times> string)" where
  "parseAuthority authority =
     (case LastIndex authority CHR ''@'' of
        None \<Rightarrow>
          (case parseHost authority of Inl e \<Rightarrow> Inl e | Inr host \<Rightarrow> Inr (None, host))
      | Some i \<Rightarrow>
          (case parseHost (drop (Suc i) authority) of
             Inl e \<Rightarrow> Inl e
           | Inr host \<Rightarrow>
               (case parseUserinfo (take i authority) of
                  Inl e \<Rightarrow> Inl e
                | Inr ui \<Rightarrow> Inr (Some ui, host))))"

definition stringContainsCTLByte :: "string \<Rightarrow> bool" where
  "stringContainsCTLByte s = list_ex (\<lambda>c. byte c < 32 \<or> byte c = 127) s"

text \<open>\<^verbatim>\<open>parse(rawURL, viaRequest = false)\<close>, the unexported worker of \<^verbatim>\<open>url.Parse\<close>.\<close>

definition parse :: "string \<Rightarrow> error + URL" where
  "parse rawURL =
     (if stringContainsCTLByte rawURL
        then Inl (ErrorString ''net/url: invalid control character in URL'')
      else if rawURL = ''*'' then Inr (emptyURL\<lparr>Path := ''*''\<rparr>)
      else
        (case getScheme rawURL of
           Inl e \<Rightarrow> Inl e
         | Inr (scheme0, rest0) \<Rightarrow>
             let scheme = map lowerByte scheme0;
                 force = (HasSuffix rest0 ''?'' \<and> count_list rest0 CHR ''?'' = 1);
                 rest = (if force then butlast rest0 else fst (Cut rest0 CHR ''?''));
                 query = (if force then [] else fst (snd (Cut rest0 CHR ''?'')));
                 url = emptyURL\<lparr>Scheme := scheme, ForceQuery := force, RawQuery := query\<rparr>
             in
               if \<not> HasPrefix rest ''/'' \<and> scheme \<noteq> [] then Inr (url\<lparr>Opaque := rest\<rparr>)
               else if \<not> HasPrefix rest ''/'' \<and> CHR '':'' \<in> set (fst (Cut rest CHR ''/''))
                 then Inl (ErrorString ''first path segment in URL cannot contain colon'')
               else if (scheme \<noteq> [] \<or> \<not> HasPrefix rest ''///'') \<and> HasPrefix rest ''//'' then
                 (case Cut (drop 2 rest) CHR ''/'' of
                    (authority, after, found) \<Rightarrow>
                      (case parseAuthority authority of
                         Inl e \<Rightarrow> Inl e
                       | Inr (user, host) \<Rightarrow>
                           setPath (url\<lparr>User := user, Host := host\<rparr>)
                             (if found then CHR ''/'' # after else [])))
               else if scheme \<noteq> [] \<and> HasPrefix rest ''/'' then setPath (url\<lparr>OmitHost := True\<rparr>) rest
               else setPath url rest))"

definition url_Parse :: "string \<Rightarrow> error + URL" where
  "url_Parse rawURL =
     (case Cut rawURL CHR ''#'' of
        (u, frag, _) \<Rightarrow>
          (case parse u of
             Inl e \<Rightarrow> Inl (URL_Error ''parse'' u e)
           | Inr url \<Rightarrow>
               if frag = [] then Inr url
               else (case setFragment url frag of
                       Inl e \<Rightarrow> Inl (URL_Error ''parse'' rawURL e)
                     | Inr url' \<Rightarrow> Inr url')))"

subsection \<open>\<^verbatim>\<open>net/url\<close>: \<^verbatim>\<open>Values\<close>\<close>

text \<open>
  \<^verbatim>\<open>url.Values\<close> is a map from a key to its values; the list holds each key once.
  \<^verbatim>\<open>Encode\<close> writes the keys in sorted order.
\<close>

type_synonym Values = "(string \<times> string list) list"

definition Values_Set :: "Values \<Rightarrow> string \<Rightarrow> string \<Rightarrow> Values" where
  "Values_Set v k x = (k, [x]) # filter (\<lambda>kv. fst kv \<noteq> k) v"

fun str_less :: "string \<Rightarrow> string \<Rightarrow> bool" where
  "str_less [] [] = False"
| "str_less [] (b # bs) = True"
| "str_less (a # as) [] = False"
| "str_less (a # as) (b # bs) = (byte a < byte b \<or> (a = b \<and> str_less as bs))"

fun insert_key :: "string \<times> string list \<Rightarrow> Values \<Rightarrow> Values" where
  "insert_key kv [] = [kv]"
| "insert_key kv (x # xs) = (if str_less (fst x) (fst kv) then x # insert_key kv xs else kv # x # xs)"

definition sort_keys :: "Values \<Rightarrow> Values" where
  "sort_keys v = foldr insert_key v []"

definition Values_Encode :: "Values \<Rightarrow> string" where
  "Values_Encode v =
     Join_with ''&''
       (concat (map (\<lambda>(k, vs). map (\<lambda>x. QueryEscape k @ ''='' @ QueryEscape x) vs) (sort_keys v)))"

section \<open>The client\<close>

subsection \<open>Structs of the package\<close>

text \<open>The retry settings \<^verbatim>\<open>NewClient\<close> gives to \<^verbatim>\<open>retryablehttp.Client\<close>; durations in nanoseconds.\<close>

record retryClient =
  RetryMax :: int
  RetryWaitMin :: int
  RetryWaitMax :: int

record client =
  apiKey :: string
  baseURL :: string
  httpClient :: retryClient

definition Millisecond :: int where
  "Millisecond = 1000000"

definition Second :: int where
  "Second = 1000 * Millisecond"

definition NewClient :: "string \<Rightarrow> client" where
  "NewClient key =
     \<lparr>apiKey = key,
      baseURL = ''https://healthchecks.io/api/v3'',
      httpClient = \<lparr>RetryMax = 5, RetryWaitMin = 500 * Millisecond, RetryWaitMax = 4 * Second\<rparr>\<rparr>"

definition buildAddress :: "client \<Rightarrow> string list \<Rightarrow> error + URL" where
  "buildAddress c slugs =
     (case url_Parse (baseURL c) of
        Inl err \<Rightarrow> Inl (Errorf_w ''problem parsing baseAddress: '' err)
      | Inr base \<Rightarrow> Inr (JoinPath base slugs))"

record Error =
  Err :: string

record CreateCheck =
  Name :: string
  Slug :: string
  Tags :: string
  Description :: string
  Timeout :: go_int
  Grace :: go_int
  Schedule :: string
  Timezone :: string
  ManualResume :: bool
  Methods :: string
  Channels :: string
  Unique :: "string list"
  StartKeywords :: string
  SuccessKeywords :: string
  FailureKeywords :: string
  FilterSubject :: bool
  FilterBody :: bool
  FilterHttpBody :: bool
  FilterDefaultFail :: bool

record UpdateCheck =
  uName :: string
  uSlug :: string
  uTags :: string
  uDescription :: string
  uTimeout :: go_int
  uGrace :: go_int
  uSchedule :: string
  uTimezone :: string
  uManualResume :: bool
  uMethods :: string
  uChannels :: string
  uStartKeywords :: string
  uSuccessKeywords :: string
  uFailureKeywords :: string
  uFilterSubject :: bool
  uFilterBody :: bool
  uFilterHttpBody :: bool
  uFilterDefaultFail :: bool

text \<open>
  A JSON value. An \<^verbatim>\<open>any\<close> field holds whatever value was decoded into it, \<open>JNull\<close>
  for \<^verbatim>\<open>nil\<close>. \<open>JNumber\<close> is a number written as an integer, \<open>JFloat\<close> any other
  number, kept as it is written.
\<close>

datatype json =
    JNull
  | JBool bool
  | JNumber int
  | JFloat string
  | JString string
  | JArray "json list"
  | JObject "(string \<times> json) list"

text \<open>
  The read shape. The fields carry the record's name in front where the create shape
  already uses the name (\<open>cName\<close> is Go's \<^verbatim>\<open>Check.Name\<close>).
\<close>

record Check =
  cName :: string
  cSlug :: string
  cTags :: string
  cDesc :: string
  cGrace :: go_int
  cNPings :: go_int
  cStatus :: string
  cStarted :: bool
  cLastPing :: json
  cNextPing :: json
  cManualResume :: bool
  cMethods :: string
  cSubject :: string
  cSubjectFail :: string
  cStartKw :: string
  cSuccessKw :: string
  cFailureKw :: string
  cFilterSubject :: bool
  cFilterBody :: bool
  cFilterHTTPBody :: bool
  cFilterDefaultFail :: bool
  cBadgeURL :: string
  cUUID :: string
  cPingURL :: string
  cUpdateURL :: string
  cPauseURL :: string
  cResumeURL :: string
  cChannels :: string
  cTimeout :: go_int

record CheckListResponse =
  Checks :: "Check list"

text \<open>\<^verbatim>\<open>time.Time\<close> and \<^verbatim>\<open>float64\<close> values are not looked into.\<close>

typedecl Time
typedecl float64

record Ping =
  pType :: string
  pDate :: Time
  pN :: go_int
  pScheme :: string
  pRemoteAddr :: string
  pMethod :: string
  pUa :: string
  pRid :: string
  pDuration :: float64
  pBodyURL :: "string option"

record PingListResponse =
  Pings :: "Ping list"

record Flip =
  Timestamp :: string
  Up :: go_int

record FlipListResponse =
  Flips :: "Flip list"

record GetChecks =
  gSlug :: string
  gTags :: string

record GetFlipsRequest =
  Seconds :: go_int
  Start :: go_int
  End :: go_int

definition zero_Error :: Error where
  "zero_Error = \<lparr>Err = []\<rparr>"

definition zero_CreateCheck :: CreateCheck where
  "zero_CreateCheck =
     \<lparr>Name = [], Slug = [], Tags = [], Description = [], Timeout = 0, Grace = 0, Schedule = [],
      Timezone = [], ManualResume = False, Methods = [], Channels = [], Unique = [],
      StartKeywords = [], SuccessKeywords = [], FailureKeywords = [], FilterSubject = False,
      FilterBody = False, FilterHttpBody = False, FilterDefaultFail = False\<rparr>"

definition zero_UpdateCheck :: UpdateCheck where
  "zero_UpdateCheck =
     \<lparr>uName = [], uSlug = [], uTags = [], uDescription = [], uTimeout = 0, uGrace = 0,
      uSchedule = [], uTimezone = [], uManualResume = False, uMethods = [], uChannels = [],
      uStartKeywords = [], uSuccessKeywords = [], uFailureKeywords = [], uFilterSubject = False,
      uFilterBody = False, uFilterHttpBody = False, uFilterDefaultFail = False\<rparr>"

definition zero_Check :: Check where
  "zero_Check =
     \<lparr>cName = [], cSlug = [], cTags = [], cDesc = [], cGrace = 0, cNPings = 0, cStatus = [],
      cStarted = False, cLastPing = JNull, cNextPing = JNull, cManualResume = False,
      cMethods = [], cSubject = [], cSubjectFail = [], cStartKw = [], cSuccessKw = [],
      cFailureKw = [], cFilterSubject = False, cFilterBody = False, cFilterHTTPBody = False,
      cFilterDefaultFail = False, cBadgeURL = [], cUUID = [], cPingURL = [], cUpdateURL = [],
      cPauseURL = [], cResumeURL = [], cChannels = [], cTimeout = 0\<rparr>"

subsection \<open>Requests, responses and what lies outside the package\<close>

text \<open>
  A request as \<^verbatim>\<open>retryablehttp.NewRequestWithContext\<close> makes it: the method, the address
  string it was given, the headers set on it afterwards, and the body (\<open>None\<close> when the
  caller passed \<^verbatim>\<open>nil\<close>). Every header name the package sets is already in canonical
  form, so \<^verbatim>\<open>Header.Set\<close> stores it under the name as written.
\<close>

record request =
  reqMethod :: string
  reqURL :: string
  reqHeader :: "(string \<times> string) list"
  reqPayload :: "string option"

definition Header_Set :: "request \<Rightarrow> string \<Rightarrow> string \<Rightarrow> request" where
  "Header_Set req k v = req\<lparr>reqHeader := (k, v) # filter (\<lambda>kv. fst kv \<noteq> k) (reqHeader req)\<rparr>"

definition Header_Get :: "request \<Rightarrow> string \<Rightarrow> string option" where
  "Header_Get req k = map_of (reqHeader req) k"

text \<open>
  \<^verbatim>\<open>NewRequestWithContext\<close> parses the address and fails when \<^verbatim>\<open>url.Parse\<close> does. The
  methods the package passes are valid and the context is taken to be non-nil.
\<close>

definition NewRequestWithContext :: "string \<Rightarrow> string \<Rightarrow> string option \<Rightarrow> error + request" where
  "NewRequestWithContext method rawurl rawBody =
     (case url_Parse rawurl of
        Inl err \<Rightarrow> Inl err
      | Inr u \<Rightarrow> Inr \<lparr>reqMethod = method, reqURL = rawurl, reqHeader = [], reqPayload = rawBody\<rparr>)"

text \<open>
  A response body is a stream: the bytes it delivers and, when reading does not end
  with EOF, the error that ends it.
\<close>

record body =
  bytes :: string
  failure :: "string option"

record response =
  StatusCode :: int
  Body :: body

definition ReadAll :: "body \<Rightarrow> string \<times> error option" where
  "ReadAll b = (bytes b, map_option ReadError (failure b))"

text \<open>
  What the package calls and does not define: \<open>Do\<close> is \<^verbatim>\<open>c.httpClient.Do\<close>, the round
  trip under the retry settings, with the text of its error; the \<open>Marshal\<close> fields are
  \<^verbatim>\<open>json.Marshal\<close> at the two request types; a \<open>Decode\<close> field is
  \<^verbatim>\<open>json.NewDecoder(body).Decode(&v)\<close> at one target type: from the body and the value
  \<open>v\<close> holds, the value it holds afterwards and the text of the error, if any.
  Tracing spans are side effects only and are left out.
\<close>

record env =
  Do :: "retryClient \<Rightarrow> request \<Rightarrow> string + response"
  Marshal_CreateCheck :: "CreateCheck \<Rightarrow> string + string"
  Marshal_UpdateCheck :: "UpdateCheck \<Rightarrow> string + string"
  Decode_Error :: "body \<Rightarrow> Error \<Rightarrow> Error \<times> string option"
  Decode_Check :: "body \<Rightarrow> Check \<Rightarrow> Check \<times> string option"
  Decode_CheckList :: "body \<Rightarrow> CheckListResponse \<Rightarrow> CheckListResponse \<times> string option"
  Decode_PingList :: "body \<Rightarrow> PingListResponse \<Rightarrow> PingListResponse \<times> string option"
  Decode_FlipList :: "body \<Rightarrow> FlipListResponse \<Rightarrow> FlipListResponse \<times> string option"

text \<open>
  \<^verbatim>\<open>fmt.Errorf("<what> failed with %d: %v", resp.StatusCode, err2)\<close>: \<^verbatim>\<open>%v\<close> prints an
  \<^verbatim>\<open>Error\<close> through its \<^verbatim>\<open>Error()\<close> method, which returns \<^verbatim>\<open>e.Err\<close>.
\<close>

definition Error_Error :: "Error \<Rightarrow> string" where
  "Error_Error e = Err e"

definition failed_with :: "string \<Rightarrow> int \<Rightarrow> string \<Rightarrow> error" where
  "failed_with what code msg = ErrorString (what @ '' failed with '' @ fmt_d code @ '': '' @ msg)"

subsection \<open>The operations\<close>

text \<open>
  Each method of \<^verbatim>\<open>*client\<close> is written in two halves, in the order of its source:
  \<open>X_request\<close> is the method up to the request handed to \<^verbatim>\<open>c.httpClient.Do\<close> (with
  every early return on the way), \<open>X\<close> is the whole method. The request a method builds
  is the \<open>Inr\<close> value of its first half. A pointer argument is an option, \<open>None\<close> for
  \<^verbatim>\<open>nil\<close>, which the method dereferences at once.
\<close>

definition CreateCheck_request :: "env \<Rightarrow> client \<Rightarrow> CreateCheck option \<Rightarrow> error + request" where
  "CreateCheck_request e c check =
     (case check of
        None \<Rightarrow> Inl (Panic ''nil pointer dereference'')
      | Some ck \<Rightarrow>
     (case Marshal_CreateCheck e ck of
        Inl m \<Rightarrow> Inl (MarshalError m)
      | Inr reqBody \<Rightarrow>
     (case buildAddress c [''/checks/''] of
        Inl err \<Rightarrow> Inl (Errorf_v ''get checks: '' err)
      | Inr address \<Rightarrow>
     (case NewRequestWithContext ''POST'' (URL_String address) (Some reqBody) of
        Inl err \<Rightarrow> Inl err
      | Inr req \<Rightarrow> Inr (Header_Set (Header_Set req ''X-Api-Key'' (apiKey c)) ''Content-Type'' ''application/json'')))))"

definition CreateCheck :: "env \<Rightarrow> client \<Rightarrow> CreateCheck option \<Rightarrow> error + Check" where
  "CreateCheck e c check =
     (case CreateCheck_request e c check of
        Inl err \<Rightarrow> Inl err
      | Inr req \<Rightarrow>
          (case Do e (httpClient c) req of
             Inl m \<Rightarrow> Inl (DoError m)
           | Inr resp \<Rightarrow>
               if StatusCode resp \<noteq> 201 then
                 (let err2 = fst (Decode_Error e (Body resp) zero_Error)
                  in Inl (failed_with ''create check'' (StatusCode resp) (Error_Error err2)))
               else
                 (case Decode_Check e (Body resp) zero_Check of
                    (created, Some m) \<Rightarrow> Inl (DecodeError m)
                  | (created, None) \<Rightarrow> Inr created)))"

definition GetChecks_request :: "env \<Rightarrow> client \<Rightarrow> GetChecks \<Rightarrow> error + request" where
  "GetChecks_request e c params =
     (case buildAddress c [''/checks/''] of
        Inl err \<Rightarrow> Inl (Errorf_v ''get checks: '' err)
      | Inr address \<Rightarrow>
     (let q = (let q0 = [];
               q1 = (if gSlug params \<noteq> [] then Values_Set q0 ''slug'' (gSlug params) else q0);
               q2 = (if gTags params \<noteq> [] then Values_Set q1 ''tags'' (gTags params) else q1)
           in q2);
          address' = address\<lparr>RawQuery := Values_Encode q\<rparr>
      in
     (case NewRequestWithContext ''GET'' (URL_String address') None of
        Inl err \<Rightarrow> Inl err
      | Inr req \<Rightarrow> Inr (Header_Set req ''X-Api-Key'' (apiKey c)))))"

definition GetChecks :: "env \<Rightarrow> client \<Rightarrow> GetChecks \<Rightarrow> error + CheckListResponse" where
  "GetChecks e c params =
     (case GetChecks_request e c params of
        Inl err \<Rightarrow> Inl err
      | Inr req \<Rightarrow>
          (case Do e (httpClient c) req of
             Inl m \<Rightarrow> Inl (DoError m)
           | Inr resp \<Rightarrow>
               if StatusCode resp \<noteq> 200 then
                 (let err2 = fst (Decode_Error e (Body resp) zero_Error)
                  in Inl (failed_with ''get checks'' (StatusCode resp) (Error_Error err2)))
               else
                 (case Decode_CheckList e (Body resp) \<lparr>Checks = []\<rparr> of
                    (list, Some m) \<Rightarrow> Inl (DecodeError m)
                  | (list, None) \<Rightarrow> Inr list)))"

definition GetCheck_request :: "env \<Rightarrow> client \<Rightarrow> string \<Rightarrow> error + request" where
  "GetCheck_request e c identifier =
     (case buildAddress c [''/checks/'', identifier] of
        Inl err \<Rightarrow> Inl (Errorf_v ''get checks: '' err)
      | Inr address \<Rightarrow>
     (case NewRequestWithContext ''GET'' (URL_String address) None of
        Inl err \<Rightarrow> Inl err
      | Inr req \<Rightarrow> Inr (Header_Set req ''X-Api-Key'' (apiKey c))))"

definition GetCheck :: "env \<Rightarrow> client \<Rightarrow> string \<Rightarrow> error + Check" where
  "GetCheck e c identifier =
     (case GetCheck_request e c identifier of
        Inl err \<Rightarrow> Inl err
      | Inr req \<Rightarrow>
          (case Do e (httpClient c) req of
             Inl m \<Rightarrow> Inl (DoError m)
           | Inr resp \<Rightarrow>
               if StatusCode resp \<noteq> 200 then
                 (let err2 = fst (Decode_Error e (Body resp) zero_Error)
                  in Inl (failed_with ''get check'' (StatusCode resp) (Error_Error err2)))
               else
                 (case Decode_Check e (Body resp) zero_Check of
                    (ch, Some m) \<Rightarrow> Inl (DecodeError m)
                  | (ch, None) \<Rightarrow> Inr ch)))"

definition UpdateCheck_request :: "env \<Rightarrow> client \<Rightarrow> string \<Rightarrow> UpdateCheck option \<Rightarrow> error + request" where
  "UpdateCheck_request e c uuid update =
     (case update of
        None \<Rightarrow> Inl (Panic ''nil pointer dereference'')
      | Some up \<Rightarrow>
     (case Marshal_UpdateCheck e up of
        Inl m \<Rightarrow> Inl (MarshalError m)
      | Inr reqBody \<Rightarrow>
     (case buildAddress c [''/checks/'', uuid] of
        Inl err \<Rightarrow> Inl (Errorf_v ''get checks: '' err)
      | Inr address \<Rightarrow>
     (case NewRequestWithContext ''POST'' (URL_String address) (Some reqBody) of
        Inl err \<Rightarrow> Inl err
      | Inr req \<Rightarrow> Inr (Header_Set (Header_Set req ''X-Api-Key'' (apiKey c)) ''Content-Type'' ''application/json'')))))"

definition UpdateCheck :: "env \<Rightarrow> client \<Rightarrow> string \<Rightarrow> UpdateCheck option \<Rightarrow> error + Check" where
  "UpdateCheck e c uuid update =
     (case UpdateCheck_request e c uuid update of
        Inl err \<Rightarrow> Inl err
      | Inr req \<Rightarrow>
          (case Do e (httpClient c) req of
             Inl m \<Rightarrow> Inl (DoError m)
           | Inr resp \<Rightarrow>
               if StatusCode resp \<noteq> 200 then
                 (let err2 = fst (Decode_Error e (Body resp) zero_Error)
                  in Inl (failed_with ''update check'' (StatusCode resp) (Error_Error err2)))
               else
                 (case Decode_Check e (Body resp) zero_Check of
                    (updated, Some m) \<Rightarrow> Inl (DecodeError m)
                  | (updated, None) \<Rightarrow> Inr updated)))"

definition DeleteCheck_request :: "env \<Rightarrow> client \<Rightarrow> string \<Rightarrow> error + request" where
  "DeleteCheck_request e c uuid =
     (case buildAddress c [''/checks/'', uuid] of
        Inl err \<Rightarrow> Inl (Errorf_v ''get checks: '' err)
      | Inr address \<Rightarrow>
     (case NewRequestWithContext ''DELETE'' (URL_String address) None of
        Inl err \<Rightarrow> Inl err
      | Inr req \<Rightarrow> Inr (Header_Set req ''X-Api-Key'' (apiKey c))))"

definition DeleteCheck :: "env \<Rightarrow> client \<Rightarrow> string \<Rightarrow> error + Check" where
  "DeleteCheck e c uuid =
     (case DeleteCheck_request e c uuid of
        Inl err \<Rightarrow> Inl err
      | Inr req \<Rightarrow>
          (case Do e (httpClient c) req of
             Inl m \<Rightarrow> Inl (DoError m)
           | Inr resp \<Rightarrow>
               if StatusCode resp \<noteq> 200 then
                 (let err2 = fst (Decode_Error e (Body resp) zero_Error)
                  in Inl (failed_with ''delete check'' (StatusCode resp) (Error_Error err2)))
               else
                 (case Decode_Check e (Body resp) zero_Check of
                    (deleted, Some m) \<Rightarrow> Inl (DecodeError m)
                  | (deleted, None) \<Rightarrow> Inr deleted)))"

definition PauseCheck_request :: "env \<Rightarrow> client \<Rightarrow> string \<Rightarrow> error + request" where
  "PauseCheck_request e c uuid =
     (case buildAddress c [''/checks/'', uuid, ''/pause''] of
        Inl err \<Rightarrow> Inl (Errorf_v ''get checks: '' err)
      | Inr address \<Rightarrow>
     (case NewRequestWithContext ''POST'' (URL_String address) None of
        Inl err \<Rightarrow> Inl err
      | Inr req \<Rightarrow> Inr (Header_Set req ''X-Api-Key'' (apiKey c))))"

definition PauseCheck :: "env \<Rightarrow> client \<Rightarrow> string \<Rightarrow> error + Check" where
  "PauseCheck e c uuid =
     (case PauseCheck_request e c uuid of
        Inl err \<Rightarrow> Inl err
      | Inr req \<Rightarrow>
          (case Do e (httpClient c) req of
             Inl m \<Rightarrow> Inl (DoError m)
           | Inr resp \<Rightarrow>
               if StatusCode resp \<noteq> 200 then
                 (let err2 = fst (Decode_Error e (Body resp) zero_Error)
                  in Inl (failed_with ''pause check'' (StatusCode resp) (Error_Error err2)))
               else
                 (case Decode_Check e (Body resp) zero_Check of
                    (paused, Some m) \<Rightarrow> Inl (DecodeError m)
                  | (paused, None) \<Rightarrow> Inr paused)))"

definition ResumeCheck_request :: "env \<Rightarrow> client \<Rightarrow> string \<Rightarrow> error + request" where
  "ResumeCheck_request e c uuid =
     (case buildAddress c [''/checks/'', uuid, ''/resume''] of
        Inl err \<Rightarrow> Inl (Errorf_v ''get checks: '' err)
      | Inr address \<Rightarrow>
     (case NewRequestWithContext ''POST'' (URL_String address) None of
        Inl err \<Rightarrow> Inl err
      | Inr req \<Rightarrow> Inr (Header_Set req ''X-Api-Key'' (apiKey c))))"

definition ResumeCheck :: "env \<Rightarrow> client \<Rightarrow> string \<Rightarrow> error + Check" where
  "ResumeCheck e c uuid =
     (case ResumeCheck_request e c uuid of
        Inl err \<Rightarrow> Inl err
      | Inr req \<Rightarrow>
          (case Do e (httpClient c) req of
             Inl m \<Rightarrow> Inl (DoError m)
           | Inr resp \<Rightarrow>
               if StatusCode resp \<noteq> 200 then
                 (let err2 = fst (Decode_Error e (Body resp) zero_Error)
                  in Inl (failed_with ''resume check'' (StatusCode resp) (Error_Error err2)))
               else
                 (case Decode_Check e (Body resp) zero_Check of
                    (resumed, Some m) \<Rightarrow> Inl (DecodeError m)
                  | (resumed, None) \<Rightarrow> Inr resumed)))"

definition GetPings_request :: "env \<Rightarrow> client \<Rightarrow> string \<Rightarrow> error + request" where
  "GetPings_request e c identifier =
     (case buildAddress c [''/checks/'', identifier, ''/pings/''] of
        Inl err \<Rightarrow> Inl (Errorf_v ''get checks: '' err)
      | Inr address \<Rightarrow>
     (case NewRequestWithContext ''GET'' (URL_String address) None of
        Inl err \<Rightarrow> Inl err
      | Inr req \<Rightarrow> Inr (Header_Set req ''X-Api-Key'' (apiKey c))))"

definition GetPings :: "env \<Rightarrow> client \<Rightarrow> string \<Rightarrow> error + PingListResponse" where
  "GetPings e c identifier =
     (case GetPings_request e c identifier of
        Inl err \<Rightarrow> Inl err
      | Inr req \<Rightarrow>
          (case Do e (httpClient c) req of
             Inl m \<Rightarrow> Inl (DoError m)
           | Inr resp \<Rightarrow>
               if StatusCode resp \<noteq> 200 then
                 (let err2 = fst (Decode_Error e (Body resp) zero_Error)
                  in Inl (failed_with ''get check'' (StatusCode resp) (Error_Error err2)))
               else
                 (case Decode_PingList e (Body resp) \<lparr>Pings = []\<rparr> of
                    (list, Some m) \<Rightarrow> Inl (DecodeError m)
                  | (list, None) \<Rightarrow> Inr list)))"

definition GetPingBody_request :: "env \<Rightarrow> client \<Rightarrow> string \<Rightarrow> go_int \<Rightarrow> error + request" where
  "GetPingBody_request e c uuid n =
     (case buildAddress c [''/checks/'', uuid, ''/pings/'', Itoa n, ''/body''] of
        Inl err \<Rightarrow> Inl (Errorf_v ''get checks: '' err)
      | Inr address \<Rightarrow>
     (case NewRequestWithContext ''GET'' (URL_String address) None of
        Inl err \<Rightarrow> Inl err
      | Inr req \<Rightarrow> Inr (Header_Set req ''X-Api-Key'' (apiKey c))))"

definition GetPingBody :: "env \<Rightarrow> client \<Rightarrow> string \<Rightarrow> go_int \<Rightarrow> error + string" where
  "GetPingBody e c uuid n =
     (case GetPingBody_request e c uuid n of
        Inl err \<Rightarrow> Inl err
      | Inr req \<Rightarrow>
          (case Do e (httpClient c) req of
             Inl m \<Rightarrow> Inl (DoError m)
           | Inr resp \<Rightarrow>
               if StatusCode resp \<noteq> 200 then
                 (let err2 = fst (Decode_Error e (Body resp) zero_Error)
                  in Inl (failed_with ''get ping body'' (StatusCode resp) (Error_Error err2)))
               else
                 (case ReadAll (Body resp) of
                    (body, Some err) \<Rightarrow> Inl err
                  | (body, None) \<Rightarrow> Inr body)))"

definition GetFlips_request :: "env \<Rightarrow> client \<Rightarrow> string \<Rightarrow> GetFlipsRequest \<Rightarrow> error + request" where
  "GetFlips_request e c identifier params =
     (case buildAddress c [''/checks/'', identifier, ''/flips/''] of
        Inl err \<Rightarrow> Inl (Errorf_v ''get checks: '' err)
      | Inr address \<Rightarrow>
     (let q = (let q0 = [];
               q1 = (if 0 <s Seconds params then Values_Set q0 ''seconds'' (Itoa (Seconds params)) else q0);
               q2 = (if 0 <s Start params then Values_Set q1 ''start'' (fmt_d (sint (Start params))) else q1);
               q3 = (if 0 <s End params then Values_Set q2 ''end'' (fmt_d (sint (End params))) else q2)
           in q3);
          address' = address\<lparr>RawQuery := Values_Encode q\<rparr>
      in
     (case NewRequestWithContext ''GET'' (URL_String address') None of
        Inl err \<Rightarrow> Inl err
      | Inr req \<Rightarrow> Inr (Header_Set req ''X-Api-Key'' (apiKey c)))))"

definition GetFlips :: "env \<Rightarrow> client \<Rightarrow> string \<Rightarrow> GetFlipsRequest \<Rightarrow> error + FlipListResponse" where
  "GetFlips e c identifier params =
     (case GetFlips_request e c identifier params of
        Inl err \<Rightarrow> Inl err
      | Inr req \<Rightarrow>
          (case Do e (httpClient c) req of
             Inl m \<Rightarrow> Inl (DoError m)
           | Inr resp \<Rightarrow>
               if StatusCode resp \<noteq> 200 then
                 (let err2 = fst (Decode_Error e (Body resp) zero_Error)
                  in Inl (failed_with ''get flips'' (StatusCode resp) (Error_Error err2)))
               else
                 (case Decode_FlipList e (Body resp) \<lparr>Flips = []\<rparr> of
                    (list, Some m) \<Rightarrow> Inl (DecodeError m)
                  | (list, None) \<Rightarrow> Inr list)))"


text \<open>
  A \<^verbatim>\<open>PingOption\<close> is a function on the parsed address; \<^verbatim>\<open>Ping\<close> applies the options in
  order. It sets no API key and no content type.
\<close>

type_synonym PingOption = "URL \<Rightarrow> URL"

definition WithStart :: PingOption where
  "WithStart = (\<lambda>u. JoinPath u [''/start''])"

definition WithFail :: PingOption where
  "WithFail = (\<lambda>u. JoinPath u [''/fail''])"

definition Ping_request :: "env \<Rightarrow> client \<Rightarrow> string \<Rightarrow> string \<Rightarrow> PingOption list \<Rightarrow> error + request" where
  "Ping_request e c pingURL body opts =
     (case url_Parse pingURL of
        Inl err \<Rightarrow> Inl (Errorf_v ''parsing ping url: '' err)
      | Inr addr0 \<Rightarrow>
          (let addr = foldl (\<lambda>addr opt. opt addr) addr0 opts
           in case NewRequestWithContext ''POST'' (URL_String addr) (Some body) of
                Inl err \<Rightarrow> Inl err
              | Inr req \<Rightarrow> Inr (Header_Set req ''User-Agent'' ''go-healthchecks-client'')))"

definition Ping :: "env \<Rightarrow> client \<Rightarrow> string \<Rightarrow> string \<Rightarrow> PingOption list \<Rightarrow> error + unit" where
  "Ping e c pingURL body opts =
     (case Ping_request e c pingURL body opts of
        Inl err \<Rightarrow> Inl err
      | Inr req \<Rightarrow>
          (case Do e (httpClient c) req of
             Inl m \<Rightarrow> Inl (Errorf_v ''ping: '' (DoError m))
           | Inr resp \<Rightarrow>
               if StatusCode resp \<noteq> 200 then
                 (let bs = fst (ReadAll (Body resp))
                  in Inl (failed_with ''ping'' (StatusCode resp) bs))
               else Inr ()))"

subsection \<open>The interface as a whole\<close>

text \<open>
  The \<^verbatim>\<open>Client\<close> interface has eleven methods. A call of one of them is a value of
  \<open>call\<close>, what it returns besides the error a value of \<open>result\<close>; \<open>request_of\<close> and
  \<open>run\<close> send a call to its method.
\<close>

datatype call =
    CallCreateCheck "CreateCheck option"
  | CallGetChecks GetChecks
  | CallGetCheck string
  | CallUpdateCheck string "UpdateCheck option"
  | CallDeleteCheck string
  | CallPauseCheck string
  | CallResumeCheck string
  | CallGetPings string
  | CallGetPingBody string go_int
  | CallGetFlips string GetFlipsRequest
  | CallPing string string "PingOption list"

datatype result =
    ResCheck Check
  | ResCheckList CheckListResponse
  | ResPingList PingListResponse
  | ResText string
  | ResFlipList FlipListResponse
  | ResNone

fun request_of :: "env \<Rightarrow> client \<Rightarrow> call \<Rightarrow> error + request" where
  "request_of e c (CallCreateCheck check) = CreateCheck_request e c check"
| "request_of e c (CallGetChecks params) = GetChecks_request e c params"
| "request_of e c (CallGetCheck identifier) = GetCheck_request e c identifier"
| "request_of e c (CallUpdateCheck uuid update) = UpdateCheck_request e c uuid update"
| "request_of e c (CallDeleteCheck uuid) = DeleteCheck_request e c uuid"
| "request_of e c (CallPauseCheck uuid) = PauseCheck_request e c uuid"
| "request_of e c (CallResumeCheck uuid) = ResumeCheck_request e c uuid"
| "request_of e c (CallGetPings identifier) = GetPings_request e c identifier"
| "request_of e c (CallGetPingBody uuid n) = GetPingBody_request e c uuid n"
| "request_of e c (CallGetFlips identifier params) = GetFlips_request e c identifier params"
| "request_of e c (CallPing pingURL body opts) = Ping_request e c pingURL body opts"

fun run :: "env \<Rightarrow> client \<Rightarrow> call \<Rightarrow> error + result" where
  "run e c (CallCreateCheck check) = map_sum id ResCheck (CreateCheck e c check)"
| "run e c (CallGetChecks params) = map_sum id ResCheckList (GetChecks e c params)"
| "run e c (CallGetCheck identifier) = map_sum id ResCheck (GetCheck e c identifier)"
| "run e c (CallUpdateCheck uuid update) = map_sum id ResCheck (UpdateCheck e c uuid update)"
| "run e c (CallDeleteCheck uuid) = map_sum id ResCheck (DeleteCheck e c uuid)"
| "run e c (CallPauseCheck uuid) = map_sum id ResCheck (PauseCheck e c uuid)"
| "run e c (CallResumeCheck uuid) = map_sum id ResCheck (ResumeCheck e c uuid)"
| "run e c (CallGetPings identifier) = map_sum id ResPingList (GetPings e c identifier)"
| "run e c (CallGetPingBody uuid n) = map_sum id ResText (GetPingBody e c uuid n)"
| "run e c (CallGetFlips identifier params) = map_sum id ResFlipList (GetFlips e c identifier params)"
| "run e c (CallPing pingURL body opts) = map_sum id (\<lambda>_. ResNone) (Ping e c pingURL body opts)"

subsection \<open>Tables read off the operations\<close>

text \<open>
  The status each method compares the response with, and the words it puts in front of
  \<^verbatim>\<open>failed with\<close> (\<^verbatim>\<open>GetPings\<close> says \<^verbatim>\<open>get check\<close>, as its source does).
\<close>

fun is_ping :: "call \<Rightarrow> bool" where
  "is_ping (CallPing pingURL body opts) = True"
| "is_ping _ = False"

fun expected_status :: "call \<Rightarrow> int" where
  "expected_status (CallCreateCheck check) = 201"
| "expected_status _ = 200"

fun what :: "call \<Rightarrow> string" where
  "what (CallCreateCheck check) = ''create check''"
| "what (CallGetChecks params) = ''get checks''"
| "what (CallGetCheck identifier) = ''get check''"
| "what (CallUpdateCheck uuid update) = ''update check''"
| "what (CallDeleteCheck uuid) = ''delete check''"
| "what (CallPauseCheck uuid) = ''pause check''"
| "what (CallResumeCheck uuid) = ''resume check''"
| "what (CallGetPings identifier) = ''get check''"
| "what (CallGetPingBody uuid n) = ''get ping body''"
| "what (CallGetFlips identifier params) = ''get flips''"
| "what (CallPing pingURL body opts) = ''ping''"

text \<open>
  What a method makes of the body of a response with the expected status: the value of
  its response type and the error of the decoding, if any. \<^verbatim>\<open>GetPingBody\<close> reads the
  text, \<^verbatim>\<open>Ping\<close> does not look at the body.
\<close>

fun decoded :: "env \<Rightarrow> call \<Rightarrow> body \<Rightarrow> result \<times> error option" where
  "decoded e (CallCreateCheck check) b =
     (case Decode_Check e b zero_Check of (v, m) \<Rightarrow> (ResCheck v, map_option DecodeError m))"
| "decoded e (CallGetChecks params) b =
     (case Decode_CheckList e b \<lparr>Checks = []\<rparr> of
        (v, m) \<Rightarrow> (ResCheckList v, map_option DecodeError m))"
| "decoded e (CallGetCheck identifier) b =
     (case Decode_Check e b zero_Check of (v, m) \<Rightarrow> (ResCheck v, map_option DecodeError m))"
| "decoded e (CallUpdateCheck uuid update) b =
     (case Decode_Check e b zero_Check of (v, m) \<Rightarrow> (ResCheck v, map_option DecodeError m))"
| "decoded e (CallDeleteCheck uuid) b =
     (case Decode_Check e b zero_Check of (v, m) \<Rightarrow> (ResCheck v, map_option DecodeError m))"
| "decoded e (CallPauseCheck uuid) b =
     (case Decode_Check e b zero_Check of (v, m) \<Rightarrow> (ResCheck v, map_option DecodeError m))"
| "decoded e (CallResumeCheck uuid) b =
     (case Decode_Check e b zero_Check of (v, m) \<Rightarrow> (ResCheck v, map_option DecodeError m))"
| "decoded e (CallGetPings identifier) b =
     (case Decode_PingList e b \<lparr>Pings = []\<rparr> of
        (v, m) \<Rightarrow> (ResPingList v, map_option DecodeError m))"
| "decoded e (CallGetPingBody uuid n) b = (ResText (bytes b), map_option ReadError (failure b))"
| "decoded e (CallGetFlips identifier params) b =
     (case Decode_FlipList e b \<lparr>Flips = []\<rparr> of
        (v, m) \<Rightarrow> (ResFlipList v, map_option DecodeError m))"
| "decoded e (CallPing pingURL body opts) b = (ResNone, None)"

text \<open>
  The message a method puts after the status code when the status is not the expected
  one: \<^verbatim>\<open>Ping\<close> takes the text of the body, every other method the \<^verbatim>\<open>Err\<close> field that
  decoding the body into a fresh \<^verbatim>\<open>Error\<close> leaves there (the decoder's own error is
  dropped).
\<close>

definition remote_message :: "env \<Rightarrow> call \<Rightarrow> body \<Rightarrow> string" where
  "remote_message e cl b =
     (if is_ping cl then bytes b else Err (fst (Decode_Error e b zero_Error)))"

subsection \<open>Sample surroundings\<close>

text \<open>
  A server that answers every request with one status and one body text, with decoders
  that leave \<open>err2\<close> in an \<^verbatim>\<open>Error\<close>, leave every other target as it is, and report
  \<open>decode_failure\<close>.
\<close>

definition env_reply :: "int \<Rightarrow> string \<Rightarrow> Error \<Rightarrow> string option \<Rightarrow> env" where
  "env_reply code text err2 decode_failure =
     \<lparr>Do = (\<lambda>rc req. Inr \<lparr>StatusCode = code, Body = \<lparr>bytes = text, failure = None\<rparr>\<rparr>),
      Marshal_CreateCheck = (\<lambda>ck. Inr ''{}''),
      Marshal_UpdateCheck = (\<lambda>up. Inr ''{}''),
      Decode_Error = (\<lambda>b v. (err2, decode_failure)),
      Decode_Check = (\<lambda>b v. (v, decode_failure)),
      Decode_CheckList = (\<lambda>b v. (v, decode_failure)),
      Decode_PingList = (\<lambda>b v. (v, decode_failure)),
      Decode_FlipList = (\<lambda>b v. (v, decode_failure))\<rparr>"

text \<open>The body \<^verbatim>\<open>{"error":"X"}\<close>.\<close>

definition error_X_text :: string where
  "error_X_text = ''{'' @ [CHR 0x22] @ ''error'' @ [CHR 0x22] @ '':'' @ [CHR 0x22] @ ''X'' @ [CHR 0x22] @ ''}''"

subsection \<open>Words for stating properties of paths and addresses\<close>

text \<open>The non-empty elements between the slashes of a string.\<close>

definition elements :: "string \<Rightarrow> string list" where
  "elements s = filter (\<lambda>x. x \<noteq> []) (split_slash s)"

text \<open>Elements that are not empty and contain no slash.\<close>

definition slash_free :: "string list \<Rightarrow> bool" where
  "slash_free st = list_all (\<lambda>x. x \<noteq> [] \<and> CHR ''/'' \<notin> set x) st"

text \<open>The unreserved characters of RFC 3986: letters, digits and \<^verbatim>\<open>-_.~\<close>.\<close>

definition unreserved_char :: "char \<Rightarrow> bool" where
  "unreserved_char c = (isAlnum c \<or> c \<in> set ''-_.~'')"

text \<open>A string whose characters \<^verbatim>\<open>net/url\<close> writes into a path as they are.\<close>

definition path_safe :: "string \<Rightarrow> bool" where
  "path_safe p = list_all (\<lambda>c. \<not> shouldEscape c encodePath) p"

text \<open>The path made of the given elements, each after one slash.\<close>

definition rooted :: "string list \<Rightarrow> string" where
  "rooted cs = concat (map ((#) CHR ''/'') cs)"

text \<open>No element is \<^verbatim>\<open>.\<close> or \<^verbatim>\<open>..\<close>.\<close>

definition dot_free :: "string list \<Rightarrow> bool" where
  "dot_free cs = list_all (\<lambda>x. x \<noteq> ''.'' \<and> x \<noteq> ''..'') cs"

text \<open>The elements of all segments in the order given, each after one slash, with a closing slash when the last segment has one.\<close>

definition joined :: "string list \<Rightarrow> string" where
  "joined segs = rooted (concat (map elements segs)) @
     (if segs \<noteq> [] \<and> HasSuffix (last segs) ''/'' then ''/'' else [])"

text \<open>A host name made of unreserved characters.\<close>

definition plain_host :: "string \<Rightarrow> bool" where
  "plain_host h = (h \<noteq> [] \<and> list_all unreserved_char h)"

text \<open>Segments whose characters need no escaping in a path.\<close>

definition safe_segments :: "string list \<Rightarrow> bool" where
  "safe_segments segs = list_all path_safe segs"

text \<open>A query string as \<^verbatim>\<open>Values.Encode\<close> writes it: unreserved characters, escapes, \<^verbatim>\<open>+\<close>, \<^verbatim>\<open>&\<close> and \<^verbatim>\<open>=\<close>.\<close>

definition query_safe :: "string \<Rightarrow> bool" where
  "query_safe q = list_all (\<lambda>c. unreserved_char c \<or> c \<in> set ''%+&='') q"

text \<open>The characters of a UUID: letters, digits and the hyphen.\<close>

definition uuid_char :: "char \<Rightarrow> bool" where
  "uuid_char c = (isAlnum c \<or> c = CHR ''-'')"

text \<open>The base address of \<^verbatim>\<open>NewClient\<close>, parsed.\<close>

definition base_v3 :: URL where
  "base_v3 = emptyURL\<lparr>Scheme := ''https'', Host := ''healthchecks.io'', Path := ''/api/v3''\<rparr>"

section \<open>Properties\<close>

subsection \<open>Unfolding the operations\<close>

lemmas request_defs = CreateCheck_request_def GetChecks_request_def GetCheck_request_def
  UpdateCheck_request_def DeleteCheck_request_def PauseCheck_request_def ResumeCheck_request_def
  GetPings_request_def GetPingBody_request_def GetFlips_request_def Ping_request_def

lemmas run_defs = CreateCheck_def GetChecks_def GetCheck_def
  UpdateCheck_def DeleteCheck_def PauseCheck_def ResumeCheck_def
  GetPings_def GetPingBody_def GetFlips_def Ping_def

subsection \<open>The base address always parses\<close>

lemma url_Parse_base: "url_Parse ''https://healthchecks.io/api/v3'' = Inr base_v3"
  by code_simp

lemma buildAddress_NewClient: "buildAddress (NewClient key) slugs = Inr (JoinPath base_v3 slugs)"
  by (simp add: buildAddress_def NewClient_def url_Parse_base)

lemma NewRequest_Inl:
  "NewRequestWithContext m u b = Inl x \<Longrightarrow> \<exists>a b' c. x = URL_Error a b' c"
  by (auto simp: NewRequestWithContext_def url_Parse_def split: sum.splits prod.splits if_splits)

lemma request_of_no_address_error:
  "request_of e (NewClient key) cl \<noteq> Inl (Errorf_v ''get checks: '' err)"
  by (cases cl)
     (auto simp: request_defs buildAddress_NewClient Let_def
           split: sum.split option.split dest!: NewRequest_Inl)

lemma run_no_address_error:
  "run e (NewClient key) cl \<noteq> Inl (Errorf_v ''get checks: '' err)"
  using request_of_no_address_error [of e key cl err]
  by (cases cl)
     (auto simp: run_defs failed_with_def ReadAll_def Let_def
           split: sum.split option.split prod.split)

text \<open>
  C9. For a client made by \<^verbatim>\<open>NewClient\<close>, whatever the key and the path segments,
  \<^verbatim>\<open>buildAddress\<close> returns an address and no error: the constant base address parses.
  So no operation of such a client ever returns the error it keeps for a failed address
  construction (the text \<^verbatim>\<open>get checks:\<close> followed by the parse error), neither before
  the request is sent nor after.
\<close>

theorem buildAddress_NewClient_never_fails:
  "buildAddress (NewClient key) slugs = Inr (JoinPath base_v3 slugs)
   \<and> (\<forall>err. request_of e (NewClient key) cl \<noteq> Inl (Errorf_v ''get checks: '' err))
   \<and> (\<forall>err. run e (NewClient key) cl \<noteq> Inl (Errorf_v ''get checks: '' err))"
  by (simp add: buildAddress_NewClient request_of_no_address_error run_no_address_error)

subsection \<open>Headers of the requests\<close>

text \<open>
  C1, as stated, fails for \<^verbatim>\<open>Ping\<close>: the request of a ping to
  \<^verbatim>\<open>https://hc-ping.com/abc\<close> with the body \<^verbatim>\<open>example body\<close>, by a client whose key is
  \<^verbatim>\<open>k\<close>, has a body and carries neither an \<^verbatim>\<open>X-Api-Key\<close> header nor a
  \<^verbatim>\<open>Content-Type\<close> header; \<^verbatim>\<open>User-Agent\<close> is its only header.
\<close>

theorem Ping_request_has_no_api_key:
  "request_of (env_reply 200 [] zero_Error None) (NewClient ''k'')
     (CallPing ''https://hc-ping.com/abc'' ''example body'' [])
   = Inr \<lparr>reqMethod = ''POST'', reqURL = ''https://hc-ping.com/abc'',
          reqHeader = [(''User-Agent'', ''go-healthchecks-client'')],
          reqPayload = Some ''example body''\<rparr>
   \<and> Header_Get \<lparr>reqMethod = ''POST'', reqURL = ''https://hc-ping.com/abc'',
          reqHeader = [(''User-Agent'', ''go-healthchecks-client'')],
          reqPayload = Some ''example body''\<rparr> ''X-Api-Key'' = None
   \<and> Header_Get \<lparr>reqMethod = ''POST'', reqURL = ''https://hc-ping.com/abc'',
          reqHeader = [(''User-Agent'', ''go-healthchecks-client'')],
          reqPayload = Some ''example body''\<rparr> ''Content-Type'' = None"
  by code_simp

text \<open>
  C1, amended. The request built by any of the ten operations on checks, pings and flips
  carries the client's key in the \<^verbatim>\<open>X-Api-Key\<close> header, and when it has a body it carries
  \<^verbatim>\<open>Content-Type: application/json\<close>. The request built by \<^verbatim>\<open>Ping\<close> always has a body
  and carries the \<^verbatim>\<open>User-Agent\<close> header and no other.
\<close>

theorem requests_carry_their_headers:
  assumes "request_of e c cl = Inr req"
  shows "if is_ping cl
         then reqHeader req = [(''User-Agent'', ''go-healthchecks-client'')] \<and> reqPayload req \<noteq> None
         else Header_Get req ''X-Api-Key'' = Some (apiKey c)
              \<and> (reqPayload req = None \<or> Header_Get req ''Content-Type'' = Some ''application/json'')"
  using assms
  by (cases cl)
     (auto simp: request_defs NewRequestWithContext_def Header_Set_def Header_Get_def Let_def
           split: sum.splits option.splits)

theorem requests_carry_their_headers_witness:
  "request_of (env_reply 201 [] zero_Error None) (NewClient ''k'')
     (CallCreateCheck (Some zero_CreateCheck))
   = Inr \<lparr>reqMethod = ''POST'', reqURL = ''https://healthchecks.io/api/v3/checks/'',
          reqHeader = [(''Content-Type'', ''application/json''), (''X-Api-Key'', ''k'')],
          reqPayload = Some ''{}''\<rparr>
   \<and> Header_Get \<lparr>reqMethod = ''POST'', reqURL = ''https://healthchecks.io/api/v3/checks/'',
          reqHeader = [(''Content-Type'', ''application/json''), (''X-Api-Key'', ''k'')],
          reqPayload = Some ''{}''\<rparr> ''X-Api-Key'' = Some ''k''
   \<and> Header_Get \<lparr>reqMethod = ''POST'', reqURL = ''https://healthchecks.io/api/v3/checks/'',
          reqHeader = [(''Content-Type'', ''application/json''), (''X-Api-Key'', ''k'')],
          reqPayload = Some ''{}''\<rparr> ''Content-Type'' = Some ''application/json''"
proof -
  have h: "request_of (env_reply 201 [] zero_Error None) (NewClient ''k'')
       (CallCreateCheck (Some zero_CreateCheck))
     = Inr \<lparr>reqMethod = ''POST'', reqURL = ''https://healthchecks.io/api/v3/checks/'',
          reqHeader = [(''Content-Type'', ''application/json''), (''X-Api-Key'', ''k'')],
          reqPayload = Some ''{}''\<rparr>"
    by code_simp
  from requests_carry_their_headers [OF h] show ?thesis
    using h by (simp add: NewClient_def)
qed

subsection \<open>A response with another status\<close>

lemma run_mismatch:
  assumes "request_of e c cl = Inr req" and "Do e (httpClient c) req = Inr resp"
    and "StatusCode resp \<noteq> expected_status cl"
  shows "run e c cl =
         Inl (failed_with (what cl) (StatusCode resp) (remote_message e cl (Body resp)))"
  using assms
  by (cases cl) (simp_all add: run_defs remote_message_def Error_Error_def ReadAll_def)

text \<open>
  C2, as stated, fails for \<^verbatim>\<open>Ping\<close>. The server answers 404 with the body
  \<^verbatim>\<open>not found\<close>, which a JSON decoder rejects, leaving an \<^verbatim>\<open>Error\<close> as it was. The
  claim asks for an empty message; \<^verbatim>\<open>Ping\<close> never decodes the body and returns the
  error \<^verbatim>\<open>ping failed with 404: not found\<close>, with the text of the body as message.
\<close>

theorem Ping_mismatch_keeps_body_text:
  "Decode_Error (env_reply 404 ''not found'' zero_Error (Some ''invalid character''))
      \<lparr>bytes = ''not found'', failure = None\<rparr> zero_Error
   = (zero_Error, Some ''invalid character'')
   \<and> Ping (env_reply 404 ''not found'' zero_Error (Some ''invalid character'')) (NewClient ''k'')
       ''https://hc-ping.com/abc'' [] []
   = Inl (ErrorString ''ping failed with 404: not found'')"
  by code_simp

text \<open>
  C2, amended. Whenever an operation has sent its request and the response has another
  status than the one it expects (201 for \<^verbatim>\<open>CreateCheck\<close>, 200 otherwise), it returns an
  error and no value; the error's text is the operation's words, \<^verbatim>\<open>failed with\<close>, the
  status code in decimal, a colon, and a message. For the ten operations other than
  \<^verbatim>\<open>Ping\<close> the message is the \<^verbatim>\<open>Err\<close> field that decoding the body into a fresh
  \<^verbatim>\<open>Error\<close> leaves there, whether or not the decoder reports an error, so it is empty
  whenever the decoder leaves the \<^verbatim>\<open>Error\<close> untouched. For \<^verbatim>\<open>Ping\<close> the message is the
  text of the body.
\<close>

theorem status_mismatch_is_an_error:
  assumes "request_of e c cl = Inr req" and "Do e (httpClient c) req = Inr resp"
    and "StatusCode resp \<noteq> expected_status cl"
  shows "run e c cl =
           Inl (ErrorString (what cl @ '' failed with '' @ fmt_d (StatusCode resp) @ '': '' @
                  (if is_ping cl then bytes (Body resp)
                   else Err (fst (Decode_Error e (Body resp) zero_Error)))))
         \<and> (if \<not> is_ping cl \<and> fst (Decode_Error e (Body resp) zero_Error) = zero_Error
            then run e c cl =
              Inl (ErrorString (what cl @ '' failed with '' @ fmt_d (StatusCode resp) @ '': ''))
            else True)"
  using run_mismatch [OF assms]
  by (simp add: failed_with_def remote_message_def zero_Error_def)

theorem status_mismatch_is_an_error_witness:
  "run (env_reply 404 error_X_text \<lparr>Err = ''X''\<rparr> None) (NewClient ''k'') (CallGetCheck ''abc'')
   = Inl (ErrorString ''get check failed with 404: X'')"
proof -
  let ?e = "env_reply 404 error_X_text \<lparr>Err = ''X''\<rparr> None"
  have h1: "request_of ?e (NewClient ''k'') (CallGetCheck ''abc'')
     = Inr \<lparr>reqMethod = ''GET'', reqURL = ''https://healthchecks.io/api/v3/checks/abc'',
            reqHeader = [(''X-Api-Key'', ''k'')], reqPayload = None\<rparr>"
    by code_simp
  have h2: "Do ?e (httpClient (NewClient ''k''))
       \<lparr>reqMethod = ''GET'', reqURL = ''https://healthchecks.io/api/v3/checks/abc'',
            reqHeader = [(''X-Api-Key'', ''k'')], reqPayload = None\<rparr>
     = Inr \<lparr>StatusCode = 404, Body = \<lparr>bytes = error_X_text, failure = None\<rparr>\<rparr>"
    by (simp add: env_reply_def)
  have h3: "StatusCode \<lparr>StatusCode = 404, Body = \<lparr>bytes = error_X_text, failure = None\<rparr>\<rparr>
     \<noteq> expected_status (CallGetCheck ''abc'')"
    by simp
  have d: "fmt_d 404 = ''404''"
    by code_simp
  from status_mismatch_is_an_error [OF h1 h2 h3] show ?thesis
    by (simp add: env_reply_def d)
qed

subsection \<open>A response with the expected status\<close>

lemma run_match:
  assumes "request_of e c cl = Inr req" and "Do e (httpClient c) req = Inr resp"
    and "StatusCode resp = expected_status cl"
  shows "run e c cl =
         (case decoded e cl (Body resp) of (v, None) \<Rightarrow> Inr v | (v, Some err) \<Rightarrow> Inl err)"
  using assms
  by (cases cl) (simp_all add: run_defs ReadAll_def split: prod.split option.split)

lemma decoded_not_mismatch:
  "snd (decoded e cl b) = Some err \<Longrightarrow> err \<noteq> failed_with w code msg"
  by (cases cl) (auto simp: failed_with_def split: prod.splits)

text \<open>
  C3. Whenever an operation has sent its request and the response has the status the
  operation expects (201 for \<^verbatim>\<open>CreateCheck\<close>, 200 for every other operation): if the body
  decodes as the operation's response type without error, the operation returns that very
  value and no error; if it does not, the operation returns the decoder's (for
  \<^verbatim>\<open>GetPingBody\<close> the reader's) error, which is never an error of the status-mismatch
  form \<^verbatim>\<open>... failed with <code>: <message>\<close>.
\<close>

theorem expected_status_returns_decoded_body:
  assumes "request_of e c cl = Inr req" and "Do e (httpClient c) req = Inr resp"
    and "StatusCode resp = expected_status cl"
  shows "(if snd (decoded e cl (Body resp)) = None
          then run e c cl = Inr (fst (decoded e cl (Body resp)))
          else run e c cl = Inl (the (snd (decoded e cl (Body resp))))
               \<and> (\<forall>w code msg. the (snd (decoded e cl (Body resp))) \<noteq> failed_with w code msg))"
  using run_match [OF assms] decoded_not_mismatch [of e cl "Body resp"]
  by (cases "decoded e cl (Body resp)") (auto split: option.splits)

theorem expected_status_returns_decoded_body_witness:
  "run (env_reply 200 ''{}'' zero_Error None) (NewClient ''k'') (CallGetCheck ''abc'')
     = Inr (ResCheck zero_Check)
   \<and> run (env_reply 200 ''nonsense'' zero_Error (Some ''invalid character'')) (NewClient ''k'')
       (CallGetCheck ''abc'')
     = Inl (DecodeError ''invalid character'')"
proof -
  let ?r = "\<lparr>reqMethod = ''GET'', reqURL = ''https://healthchecks.io/api/v3/checks/abc'',
            reqHeader = [(''X-Api-Key'', ''k'')], reqPayload = None\<rparr>"
  have h1: "request_of (env_reply sc bt er df) (NewClient ''k'') (CallGetCheck ''abc'') = Inr ?r"
    for sc bt er df
    by (simp add: GetCheck_request_def buildAddress_NewClient)
       code_simp
  have h2: "Do (env_reply sc bt er df) (httpClient (NewClient ''k'')) ?r
     = Inr \<lparr>StatusCode = sc, Body = \<lparr>bytes = bt, failure = None\<rparr>\<rparr>"
    for sc bt er df
    by (simp add: env_reply_def)
  have h3: "StatusCode \<lparr>StatusCode = 200, Body = \<lparr>bytes = bt, failure = None\<rparr>\<rparr>
     = expected_status (CallGetCheck ''abc'')" for bt
    by simp
  from expected_status_returns_decoded_body [OF h1 h2 h3, of "''{}''" zero_Error None]
    expected_status_returns_decoded_body [OF h1 h2 h3, of "''nonsense''" zero_Error "Some ''invalid character''"]
  show ?thesis
    by (simp add: env_reply_def)
qed

subsection \<open>Paths: cleaning, joining, escaping, parsing\<close>

lemma split_slash_nonempty [simp]: "split_slash s \<noteq> []"
  by (induction s) auto

lemma split_slash_append:
  "split_slash (a @ CHR ''/'' # b) = split_slash a @ split_slash b"
  by (induction a) (auto simp: hd_append)

lemma split_slash_plain: "CHR ''/'' \<notin> set s \<Longrightarrow> split_slash s = [s]"
  by (induction s) auto

lemma split_slash_no_slash: "x \<in> set (split_slash s) \<Longrightarrow> CHR ''/'' \<notin> set x"
proof (induction s arbitrary: x)
  case Nil
  then show ?case by simp
next
  case (Cons c s)
  show ?case
  proof (cases "c = CHR ''/''")
    case True
    with Cons show ?thesis by auto
  next
    case False
    have ne: "split_slash s \<noteq> []" by simp
    from Cons.prems False have "x = c # hd (split_slash s) \<or> x \<in> set (tl (split_slash s))"
      by simp
    then show ?thesis
    proof
      assume "x = c # hd (split_slash s)"
      moreover have "CHR ''/'' \<notin> set (hd (split_slash s))"
        using Cons.IH [of "hd (split_slash s)"] ne by simp
      ultimately show ?thesis using False by simp
    next
      assume "x \<in> set (tl (split_slash s))"
      then have "x \<in> set (split_slash s)" using ne by (meson list.set_sel(2))
      then show ?thesis by (rule Cons.IH)
    qed
  qed
qed

lemma elements_append:
  "elements (a @ CHR ''/'' # b) = elements a @ elements b"
  by (simp add: elements_def split_slash_append)

lemma elements_Nil [simp]: "elements [] = []"
  by (simp add: elements_def)

lemma elements_slash [simp]: "elements (CHR ''/'' # s) = elements s"
  by (simp add: elements_def)

lemma clean_step_empty [simp]: "clean_step r st [] = st"
  by (simp add: clean_step_def)

lemma foldl_clean_filter:
  "foldl (clean_step r) st xs = foldl (clean_step r) st (filter (\<lambda>x. x \<noteq> []) xs)"
  by (induction xs arbitrary: st) auto

lemma foldl_clean_normal:
  "list_all (\<lambda>x. x \<noteq> [] \<and> x \<noteq> ''.'' \<and> x \<noteq> ''..'') xs \<Longrightarrow> foldl (clean_step r) st xs = st @ xs"
  by (induction xs arbitrary: st) (auto simp: clean_step_def)

lemma join_buf_elements:
  "elements (join_buf buf es) = elements buf @ concat (map elements es)"
proof (induction es arbitrary: buf)
  case Nil
  then show ?case by simp
next
  case (Cons e es)
  show ?case
    using Cons.IH [of "buf @ ''/'' @ e"] Cons.IH [of e] Cons.IH [of buf]
    by (auto simp: elements_append)
qed

lemma join_buf_hd:
  "buf \<noteq> [] \<Longrightarrow> hd (join_buf buf es) = hd buf \<and> join_buf buf es \<noteq> []"
  by (induction es arbitrary: buf) auto

lemma Clean_rooted:
  "p \<noteq> [] \<Longrightarrow> hd p = CHR ''/'' \<Longrightarrow>
   Clean p = CHR ''/'' # Join_with ''/'' (foldl (clean_step True) [] (elements p))"
  by (simp add: Clean_def Let_def elements_def foldl_clean_filter [symmetric])

lemma slash_free_Nil [simp]: "slash_free []"
  by (simp add: slash_free_def)

lemma slash_free_append [simp]: "slash_free (a @ b) = (slash_free a \<and> slash_free b)"
  by (simp add: slash_free_def)

lemma slash_free_butlast: "slash_free st \<Longrightarrow> slash_free (butlast st)"
  by (auto simp: slash_free_def list_all_iff dest: in_set_butlastD)

lemma slash_free_elements: "slash_free (elements s)"
  by (auto simp: slash_free_def elements_def list_all_iff dest: split_slash_no_slash)

lemma clean_step_slash_free:
  "slash_free st \<Longrightarrow> slash_free [c] \<Longrightarrow> slash_free (clean_step r st c)"
  by (auto simp: clean_step_def slash_free_butlast)

lemma foldl_clean_slash_free:
  "slash_free st \<Longrightarrow> slash_free cs \<Longrightarrow> slash_free (foldl (clean_step r) st cs)"
proof (induction cs arbitrary: st)
  case Nil
  then show ?case by simp
next
  case (Cons c cs)
  from Cons.prems have "slash_free [c]" "slash_free cs" by (simp_all add: slash_free_def)
  with Cons show ?case by (simp add: clean_step_slash_free)
qed

lemma double_slash_Cons:
  "double_slash (a # s) = ((a = CHR ''/'' \<and> s \<noteq> [] \<and> hd s = CHR ''/'') \<or> double_slash s)"
  by (cases s) auto

lemma double_slash_append:
  "double_slash (a @ b) =
     (double_slash a \<or> double_slash b \<or> (a \<noteq> [] \<and> b \<noteq> [] \<and> last a = CHR ''/'' \<and> hd b = CHR ''/''))"
proof (induction a)
  case Nil
  then show ?case by simp
next
  case (Cons x a)
  then show ?case
    by (cases a) (auto simp: double_slash_Cons)
qed

lemma no_slash_no_double: "CHR ''/'' \<notin> set s \<Longrightarrow> \<not> double_slash s"
  by (induction s rule: double_slash.induct) auto

lemma hd_last_no_slash:
  "x \<noteq> [] \<Longrightarrow> CHR ''/'' \<notin> set x \<Longrightarrow> hd x \<noteq> CHR ''/'' \<and> last x \<noteq> CHR ''/''"
  using hd_in_set last_in_set by fastforce

lemma Join_slash_free:
  "slash_free st \<Longrightarrow> st \<noteq> [] \<Longrightarrow>
   \<not> double_slash (Join_with ''/'' st) \<and> Join_with ''/'' st \<noteq> []
   \<and> hd (Join_with ''/'' st) \<noteq> CHR ''/'' \<and> last (Join_with ''/'' st) \<noteq> CHR ''/''"
proof (induction st)
  case Nil
  then show ?case by simp
next
  case (Cons x st)
  then have x: "x \<noteq> []" "CHR ''/'' \<notin> set x" and r: "slash_free st"
    by (simp_all add: slash_free_def)
  note hx = hd_last_no_slash [OF x]
  show ?case
  proof (cases st)
    case Nil
    then show ?thesis using x hx by (simp add: no_slash_no_double)
  next
    case (Cons y ys)
    with Cons.IH r have ih: "\<not> double_slash (Join_with ''/'' (y # ys))"
      "Join_with ''/'' (y # ys) \<noteq> []"
      "hd (Join_with ''/'' (y # ys)) \<noteq> CHR ''/''" "last (Join_with ''/'' (y # ys)) \<noteq> CHR ''/''"
      by simp_all
    show ?thesis
      unfolding Cons
      using x ih hx
      by (simp add: double_slash_append no_slash_no_double double_slash_Cons hd_append)
  qed
qed

lemma rooted_Join_no_double:
  "slash_free st \<Longrightarrow> \<not> double_slash (CHR ''/'' # Join_with ''/'' st)"
  using Join_slash_free [of st]
  by (cases "st = []") (auto simp: double_slash_Cons)

lemma Clean_rooted_no_double:
  "p \<noteq> [] \<Longrightarrow> hd p = CHR ''/'' \<Longrightarrow> \<not> double_slash (Clean p)"
  by (simp add: Clean_rooted rooted_Join_no_double foldl_clean_slash_free slash_free_elements)

lemma join_buf_first:
  "e \<noteq> [] \<Longrightarrow> join_buf [] (e # es) \<noteq> [] \<and> hd (join_buf [] (e # es)) = hd e"
  using join_buf_hd [of e es] by simp

lemma path_Join_rooted:
  assumes "e \<noteq> []" "hd e = CHR ''/''"
  shows "path_Join (e # es) =
         CHR ''/'' # Join_with ''/'' (foldl (clean_step True) [] (elements e @ concat (map elements es)))"
proof -
  have "join_buf [] (e # es) \<noteq> []" "hd (join_buf [] (e # es)) = CHR ''/''"
    using join_buf_first [OF assms(1), of es] assms(2) by simp_all
  then have "Clean (join_buf [] (e # es)) =
      CHR ''/'' # Join_with ''/'' (foldl (clean_step True) [] (elements (join_buf [] (e # es))))"
    by (rule Clean_rooted)
  moreover have "elements (join_buf [] (e # es)) = elements e @ concat (map elements es)"
    using join_buf_elements [of "[]" "e # es"] by simp
  ultimately show ?thesis using assms(1) by (simp add: path_Join_def)
qed

lemma HasPrefix_slash: "HasPrefix s ''/'' = (s \<noteq> [] \<and> hd s = CHR ''/'')"
  by (cases s) (auto simp: HasPrefix_def)

lemma HasSuffix_slash: "HasSuffix s ''/'' = (s \<noteq> [] \<and> last s = CHR ''/'')"
proof (cases "s = []")
  case True
  then show ?thesis by (simp add: HasSuffix_def)
next
  case False
  then obtain xs x where s: "s = xs @ [x]" by (metis rev_exhaust)
  then show ?thesis by (simp add: HasSuffix_def)
qed




lemma unreserved_not_escaped: "unreserved_char c \<Longrightarrow> \<not> shouldEscape c mode"
  by (auto simp: shouldEscape_def unreserved_char_def)

lemma unreserved_range: "unreserved_char c \<Longrightarrow> 32 < byte c \<and> byte c < 127"
  by (auto simp: unreserved_char_def isAlnum_def isLower_def isUpper_def isDigit_def byte_def)

lemma unreserved_not_special: "unreserved_char c \<Longrightarrow> c \<notin> set ''/?#%+@:[ *&=''"
  by (auto simp: unreserved_char_def isAlnum_def isLower_def isUpper_def isDigit_def byte_def)

lemma slash_not_escaped_in_path: "\<not> shouldEscape CHR ''/'' encodePath"
  by (simp add: shouldEscape_def isAlnum_def isLower_def isUpper_def isDigit_def byte_def)

lemma shouldEscape_path:
  "shouldEscape c encodePath =
     (\<not> isAlnum c \<and> c \<notin> set ''-_.~'' \<and> c \<notin> set ''$&+,/:;=@'')"
  unfolding shouldEscape_def
  by (cases "isAlnum c"; cases "c \<in> set ''-_.~''"; cases "c \<in> set ''$&+,/:;=@''";
      cases "c = CHR ''?''"; simp)

lemma path_char_cases:
  "\<not> shouldEscape c encodePath \<Longrightarrow> unreserved_char c \<or> c \<in> set ''$&+,/:;=@''"
  by (metis shouldEscape_path unreserved_char_def)

lemma reserved_range: "c \<in> set ''$&+,/:;=@'' \<Longrightarrow> 32 < byte c \<and> byte c < 127 \<and> c \<notin> set ''?#%''"
  by (auto simp: byte_def)

lemma path_char_facts:
  "\<not> shouldEscape c encodePath \<Longrightarrow> c \<notin> set ''?#%'' \<and> 32 < byte c \<and> byte c < 127"
proof -
  assume "\<not> shouldEscape c encodePath"
  then consider "unreserved_char c" | "c \<in> set ''$&+,/:;=@''"
    using path_char_cases by blast
  then show ?thesis
  proof cases
    case 1
    then show ?thesis using unreserved_range [of c] unreserved_not_special [of c] by simp
  next
    case 2
    from reserved_range [OF 2] show ?thesis by blast
  qed
qed

lemma escape_path_safe: "path_safe p \<Longrightarrow> escape p encodePath = p"
proof (induction p)
  case Nil
  then show ?case by simp
next
  case (Cons c p)
  then show ?case by (simp add: path_safe_def)
qed

lemma unescape_path_safe: "path_safe p \<Longrightarrow> unescape p encodePath = Inr p"
proof (induction p)
  case Nil
  then show ?case by simp
next
  case (Cons c p)
  then have "c \<noteq> CHR ''%''"
    using path_char_facts [of c] by (auto simp: path_safe_def)
  with Cons show ?case by (simp add: path_safe_def)
qed

lemma setPath_path_safe:
  "path_safe p \<Longrightarrow> setPath u p = Inr (u\<lparr>Path := p, RawPath := []\<rparr>)"
  by (simp add: setPath_def unescape_path_safe escape_path_safe)

lemma EscapedPath_path_safe:
  "path_safe p \<Longrightarrow> p \<noteq> ''*'' \<Longrightarrow> EscapedPath (u\<lparr>Path := p, RawPath := []\<rparr>) = p"
  by (simp add: EscapedPath_def escape_path_safe)

lemma rooted_Join: "cs \<noteq> [] \<Longrightarrow> CHR ''/'' # Join_with ''/'' cs = rooted cs"
proof (induction cs)
  case Nil
  then show ?case by simp
next
  case (Cons c cs)
  then show ?case by (cases cs) (simp_all add: rooted_def)
qed

lemma rooted_append: "rooted (a @ b) = rooted a @ rooted b"
  by (simp add: rooted_def)

lemma rooted_path_safe:
  "list_all path_safe cs \<Longrightarrow> path_safe (rooted cs)"
  by (induction cs) (auto simp: rooted_def path_safe_def slash_not_escaped_in_path)

lemma rooted_last:
  "slash_free cs \<Longrightarrow> cs \<noteq> [] \<Longrightarrow> rooted cs \<noteq> [] \<and> last (rooted cs) \<noteq> CHR ''/'' \<and> hd (rooted cs) = CHR ''/''"
  using Join_slash_free [of cs] rooted_Join [of cs]
  by (metis last_ConsR list.sel(1) list.distinct(1))

lemma elements_nonempty: "x \<in> set (elements s) \<Longrightarrow> x \<noteq> []"
  by (simp add: elements_def)

lemma elements_plain: "x \<noteq> [] \<Longrightarrow> CHR ''/'' \<notin> set x \<Longrightarrow> elements x = [x]"
  by (simp add: elements_def split_slash_plain)

lemma elements_rooted: "slash_free cs \<Longrightarrow> elements (rooted cs) = cs"
proof (induction cs)
  case Nil
  then show ?case by (simp add: rooted_def)
next
  case (Cons c cs)
  then have c: "c \<noteq> []" "CHR ''/'' \<notin> set c" and r: "slash_free cs"
    by (simp_all add: slash_free_def)
  show ?case
  proof (cases cs)
    case Nil
    then show ?thesis using c by (simp add: rooted_def elements_plain)
  next
    case (Cons d ds)
    have "rooted (c # cs) = CHR ''/'' # (c @ CHR ''/'' # tl (rooted cs))"
      by (simp add: rooted_def Cons)
    moreover have "rooted cs = CHR ''/'' # tl (rooted cs)"
      by (simp add: rooted_def Cons)
    ultimately have "elements (rooted (c # cs)) = elements c @ elements (rooted cs)"
      by (metis elements_append elements_slash)
    then show ?thesis using Cons.IH [OF r] c by (simp add: elements_plain)
  qed
qed

lemma JoinPath_path_rooted:
  assumes e: "EscapedPath u = rooted cs0" and ne: "cs0 \<noteq> []" and sf: "slash_free cs0"
    and d0: "dot_free cs0" and d: "dot_free (concat (map elements segs))"
  shows "JoinPath_path u segs = rooted cs0 @ joined segs"
proof -
  let ?cs = "concat (map elements segs)"
  have hd0: "rooted cs0 \<noteq> []" "hd (rooted cs0) = CHR ''/''"
    using rooted_last [OF sf ne] by simp_all
  have norm: "list_all (\<lambda>x. x \<noteq> [] \<and> x \<noteq> ''.'' \<and> x \<noteq> ''..'') (cs0 @ ?cs)"
    using d0 d sf by (auto simp: dot_free_def slash_free_def list_all_iff dest: elements_nonempty)
  have "path_Join (rooted cs0 # segs) =
      CHR ''/'' # Join_with ''/'' (foldl (clean_step True) [] (elements (rooted cs0) @ ?cs))"
    by (rule path_Join_rooted) (rule hd0)+
  also have "\<dots> = CHR ''/'' # Join_with ''/'' (cs0 @ ?cs)"
    unfolding elements_rooted [OF sf] foldl_clean_normal [OF norm] by simp
  also have "\<dots> = rooted (cs0 @ ?cs)"
    by (rule rooted_Join) (simp add: ne)
  finally have pj: "path_Join (rooted cs0 # segs) = rooted (cs0 @ ?cs)" .
  have sfa: "slash_free (cs0 @ ?cs)"
    using sf by (auto simp: slash_free_def list_all_iff elements_def dest: split_slash_no_slash)
  have nl: "rooted (cs0 @ ?cs) \<noteq> []" "last (rooted (cs0 @ ?cs)) \<noteq> CHR ''/''"
    using rooted_last [OF sfa] ne by simp_all
  have l0: "\<not> HasSuffix (rooted cs0) ''/''"
    using rooted_last [OF sf ne] by (simp add: HasSuffix_slash)
  have res: "JoinPath_path u segs =
      (if HasSuffix (last (rooted cs0 # segs)) ''/'' then rooted (cs0 @ ?cs) @ ''/''
       else rooted (cs0 @ ?cs))"
    unfolding JoinPath_path_def Let_def e
    using nl hd0 by (simp add: HasPrefix_slash pj HasSuffix_slash)
  show ?thesis
  proof (cases "segs = []")
    case True
    then show ?thesis unfolding res using l0 by (simp add: joined_def rooted_def)
  next
    case False
    then show ?thesis unfolding res by (simp add: joined_def rooted_append)
  qed
qed

lemma EscapedPath_base: "EscapedPath base_v3 = ''/api/v3''"
  by code_simp

lemma rooted_api_v3: "rooted [''api'', ''v3''] = ''/api/v3''"
  by (simp add: rooted_def)

lemma JoinPath_path_base:
  assumes "dot_free (concat (map elements segs))"
  shows "JoinPath_path base_v3 segs = ''/api/v3'' @ joined segs"
  using JoinPath_path_rooted [of base_v3 "[''api'', ''v3'']" segs] assms
  by (simp add: EscapedPath_base rooted_api_v3 slash_free_def dot_free_def)

lemma escape_unreserved: "list_all unreserved_char s \<Longrightarrow> escape s mode = s"
proof (induction s)
  case Nil
  then show ?case by simp
next
  case (Cons c s)
  then have "\<not> shouldEscape c mode" "c \<noteq> CHR '' ''"
    using unreserved_not_escaped [of c mode] unreserved_not_special [of c] by auto
  with Cons show ?case by simp
qed

lemma path_safe_append [simp]: "path_safe (a @ b) = (path_safe a \<and> path_safe b)"
  by (simp add: path_safe_def)

lemma path_safe_slash [simp]: "path_safe ''/''"
  by (simp add: path_safe_def slash_not_escaped_in_path)

lemma path_safe_Nil [simp]: "path_safe []"
  by (simp add: path_safe_def)

lemma path_safe_Cons_slash [simp]: "path_safe (CHR ''/'' # s) = path_safe s"
  by (simp add: path_safe_def slash_not_escaped_in_path)

lemma path_safe_split: "path_safe s \<Longrightarrow> x \<in> set (split_slash s) \<Longrightarrow> path_safe x"
proof (induction s arbitrary: x)
  case Nil
  then show ?case by simp
next
  case (Cons c s)
  have ne: "split_slash s \<noteq> []" by simp
  from Cons.prems(1) have c: "\<not> shouldEscape c encodePath" and s: "path_safe s"
    by (simp_all add: path_safe_def)
  have hd: "path_safe (hd (split_slash s))"
    using Cons.IH [OF s, of "hd (split_slash s)"] ne by simp
  have tl: "y \<in> set (tl (split_slash s)) \<Longrightarrow> path_safe y" for y
    using Cons.IH [OF s, of y] ne by (meson list.set_sel(2))
  show ?case
    using Cons.prems(2) hd tl c Cons.IH [OF s, of x]
    by (auto simp: path_safe_def split: if_splits)
qed

lemma path_safe_elements: "path_safe s \<Longrightarrow> list_all path_safe (elements s)"
  by (auto simp: elements_def list_all_iff dest: path_safe_split)

lemma safe_segments_elements:
  "safe_segments segs \<Longrightarrow> list_all path_safe (concat (map elements segs))"
  using path_safe_elements by (auto simp: safe_segments_def list_all_iff)

lemma clean_step_all:
  "list_all P st \<Longrightarrow> P c \<Longrightarrow> list_all P (clean_step True st c)"
  by (auto simp: clean_step_def list_all_iff dest: in_set_butlastD)

lemma foldl_clean_all:
  "list_all P st \<Longrightarrow> list_all P cs \<Longrightarrow> list_all P (foldl (clean_step True) st cs)"
  by (induction cs arbitrary: st) (simp_all add: clean_step_all)

lemma Join_path_safe: "list_all path_safe st \<Longrightarrow> path_safe (Join_with ''/'' st)"
proof (induction st)
  case Nil
  then show ?case by simp
next
  case (Cons x st)
  then show ?case by (cases st) simp_all
qed

lemma path_safe_tl: "path_safe s \<Longrightarrow> path_safe (tl s)"
  by (cases s) (simp_all add: path_safe_def)

lemma JoinPath_path_safe:
  assumes e: "path_safe (EscapedPath u)" and s: "safe_segments segs"
  shows "path_safe (JoinPath_path u segs)"
proof -
  define e0 where "e0 = EscapedPath u"
  define elem' where "elem' = (if \<not> HasPrefix e0 ''/'' then (CHR ''/'' # e0) # segs else e0 # segs)"
  obtain x xs where el: "elem' = x # xs" "x \<noteq> []" "hd x = CHR ''/''" "path_safe x" "xs = segs"
    using e by (cases "HasPrefix e0 ''/''") (auto simp: elem'_def HasPrefix_slash e0_def)
  have "list_all path_safe (elements x @ concat (map elements xs))"
    using path_safe_elements [OF el(4)] safe_segments_elements [OF s] el(5) by simp
  then have "path_safe (path_Join elem')"
    unfolding el(1) path_Join_rooted [OF el(2,3)]
    by (simp add: Join_path_safe foldl_clean_all)
  then have "path_safe (if \<not> HasPrefix e0 ''/'' then tl (path_Join elem') else path_Join elem')"
    by (simp add: path_safe_tl)
  then show ?thesis
    unfolding JoinPath_path_def Let_def e0_def [symmetric] elem'_def [symmetric]
    by simp
qed

lemma path_safe_api_v3: "path_safe ''/api/v3''"
  by (simp add: path_safe_def shouldEscape_path isAlnum_def isLower_def isUpper_def isDigit_def byte_def)

lemma path_safe_api_v3_tail [simp]: "path_safe ''api/v3''"
  using path_safe_api_v3 by simp

lemma path_safe_api_v3_Cons [simp]:
  "path_safe (CHR ''a'' # CHR ''p'' # CHR ''i'' # CHR ''/'' # CHR ''v'' # CHR ''3'' # s) = path_safe s"
  using path_safe_api_v3_tail path_safe_append [of "''api/v3''" s] by simp

lemma URL_String_https:
  assumes "Scheme u = ''https''" "Opaque u = []" "User u = None" "plain_host (Host u)"
    "Path u = [] \<or> hd (Path u) = CHR ''/''" "path_safe (Path u)" "RawPath u = []"
    "\<not> ForceQuery u" "Fragment u = []"
  shows "URL_String u =
         ''https://'' @ Host u @ Path u @ (if RawQuery u = [] then [] else CHR ''?'' # RawQuery u)"
proof -
  have ep: "EscapedPath u = Path u"
    using assms(5,6,7) by (auto simp: EscapedPath_def escape_path_safe)
  have eh: "escape (Host u) encodeHost = Host u" "Host u \<noteq> []"
    using assms(4) by (simp_all add: plain_host_def escape_unreserved)
  show ?thesis
    using assms(5) by (auto simp: URL_String_def Let_def assms(1,2,3,8,9) ep eh)
qed

lemma JoinPath_fields:
  "Scheme (JoinPath u e) = Scheme u" "Opaque (JoinPath u e) = Opaque u" "User (JoinPath u e) = User u"
  "Host (JoinPath u e) = Host u" "ForceQuery (JoinPath u e) = ForceQuery u"
  "RawQuery (JoinPath u e) = RawQuery u" "Fragment (JoinPath u e) = Fragment u"
  "RawFragment (JoinPath u e) = RawFragment u" "OmitHost (JoinPath u e) = OmitHost u"
  by (simp_all add: JoinPath_def setPath_def split: sum.split)

lemma JoinPath_safe:
  "path_safe (JoinPath_path u e) \<Longrightarrow> JoinPath u e = u\<lparr>Path := JoinPath_path u e, RawPath := []\<rparr>"
  by (simp add: JoinPath_def setPath_path_safe)

lemma base_fields:
  "Scheme base_v3 = ''https''" "Opaque base_v3 = []" "User base_v3 = None"
  "Host base_v3 = ''healthchecks.io''" "\<not> ForceQuery base_v3" "Fragment base_v3 = []"
  "RawQuery base_v3 = []" "RawPath base_v3 = []" "Path base_v3 = ''/api/v3''"
  by (simp_all add: base_v3_def emptyURL_def)

lemma plain_host_healthchecks: "plain_host ''healthchecks.io''"
  by (simp add: plain_host_def unreserved_char_def isAlnum_def isLower_def isUpper_def isDigit_def byte_def)

lemma Cut_absent: "sep \<notin> set s \<Longrightarrow> Cut s sep = (s, [], False)"
  by (induction s) auto

lemma Cut_present: "sep \<notin> set a \<Longrightarrow> Cut (a @ sep # b) sep = (a, b, True)"
  by (induction a) auto

lemma LastIndex_absent: "sep \<notin> set s \<Longrightarrow> LastIndex s sep = None"
  by (induction s) auto

lemma HasSuffix_char: "HasSuffix s [c] = (s \<noteq> [] \<and> last s = c)"
proof (cases "s = []")
  case True
  then show ?thesis by (simp add: HasSuffix_def)
next
  case False
  then obtain xs x where s: "s = xs @ [x]" by (metis rev_exhaust)
  then show ?thesis by (simp add: HasSuffix_def)
qed

lemma getScheme_https: "getScheme (''https:'' @ r) = Inr (''https'', r)"
  by (simp add: getScheme_def isLower_def isUpper_def isDigit_def byte_def)

lemma lower_https:
  "lowerByte CHR ''h'' = CHR ''h''" "lowerByte CHR ''t'' = CHR ''t''"
  "lowerByte CHR ''p'' = CHR ''p''" "lowerByte CHR ''s'' = CHR ''s''"
  by code_simp+

lemma slash_range: "32 < byte CHR ''/'' \<and> byte CHR ''/'' < 127"
  by (simp add: byte_def)

lemma path_safe_chars:
  "path_safe p \<Longrightarrow> c \<in> set p \<Longrightarrow> c \<notin> set ''?#%'' \<and> 32 < byte c \<and> byte c < 127"
  using path_char_facts [of c] by (simp add: path_safe_def list_all_iff)

lemma query_safe_chars:
  "query_safe q \<Longrightarrow> c \<in> set q \<Longrightarrow> c \<notin> set ''?#'' \<and> 32 < byte c \<and> byte c < 127"
  using unreserved_not_special [of c] unreserved_range [of c]
  by (auto simp: query_safe_def list_all_iff byte_def)

lemma host_chars:
  "plain_host h \<Longrightarrow> c \<in> set h \<Longrightarrow> c \<notin> set ''/?#%+@:['' \<and> 32 < byte c \<and> byte c < 127"
  using unreserved_not_special [of c] unreserved_range [of c]
  by (auto simp: plain_host_def list_all_iff)

lemma unescape_host: "list_all unreserved_char h \<Longrightarrow> unescape h encodeHost = Inr h"
proof (induction h)
  case Nil
  then show ?case by simp
next
  case (Cons c h)
  then have "c \<noteq> CHR ''%''" "c \<noteq> CHR ''+''" "\<not> shouldEscape c encodeHost"
    using unreserved_not_special [of c] unreserved_not_escaped [of c encodeHost] by auto
  with Cons show ?case by simp
qed

lemma parseAuthority_plain:
  assumes h: "plain_host h"
  shows "parseAuthority h = Inr (None, h)"
proof -
  have ne: "h \<noteq> []" and un: "list_all unreserved_char h"
    using h by (simp_all add: plain_host_def)
  have "hd h \<in> set h" using ne by simp
  then have a: "CHR ''@'' \<notin> set h" "CHR '':'' \<notin> set h" "hd h \<noteq> CHR ''[''"
    using host_chars [OF h] by auto
  have pre: "\<not> HasPrefix h ''[''"
    using ne a(3) by (cases h) (simp_all add: HasPrefix_def)
  show ?thesis
    by (simp add: parseAuthority_def parseHost_def LastIndex_absent a pre unescape_host un)
qed

lemma url_Parse_https:
  assumes h: "plain_host h" and p: "path_safe p" and r: "p = [] \<or> hd p = CHR ''/''"
    and q: "query_safe q"
  shows "url_Parse (''https://'' @ h @ p @ (if q = [] then [] else CHR ''?'' # q)) =
         Inr (emptyURL\<lparr>Scheme := ''https'', Host := h, Path := p, RawQuery := q\<rparr>)"
proof -
  define A where "A = ''//'' @ h @ p"
  define Q where "Q = (if q = [] then [] else CHR ''?'' # q)"
  define s where "s = ''https:'' @ A @ Q"
  have s_eq: "''https://'' @ h @ p @ (if q = [] then [] else CHR ''?'' # q) = s"
    by (simp add: s_def A_def Q_def)
  have hne: "h \<noteq> []" using h by (simp add: plain_host_def)
  have A_chars: "c \<in> set A \<Longrightarrow> c \<notin> set ''?#'' \<and> 32 < byte c \<and> byte c < 127" for c
    using host_chars [OF h, of c] path_safe_chars [OF p, of c] slash_range
    by (auto simp: A_def)
  have q_chars: "c \<in> set q \<Longrightarrow> c \<notin> set ''?#'' \<and> 32 < byte c \<and> byte c < 127" for c
    using query_safe_chars [OF q, of c] by simp
  have lit: "c \<in> set ''https:?'' \<Longrightarrow> c \<noteq> CHR ''#'' \<and> 32 < byte c \<and> byte c < 127" for c
    by (auto simp: byte_def)
  have s_chars: "c \<in> set s \<Longrightarrow> c \<noteq> CHR ''#'' \<and> 32 < byte c \<and> byte c < 127" for c
    using A_chars [of c] q_chars [of c] lit [of c]
    by (auto simp: s_def Q_def split: if_splits)
  have nohash: "CHR ''#'' \<notin> set s" using s_chars by blast
  have ctl: "\<not> stringContainsCTLByte s"
    using s_chars by (fastforce simp: stringContainsCTLByte_def list_ex_iff)
  have nstar: "s \<noteq> ''*''" by (simp add: s_def)
  have gs: "getScheme s = Inr (''https'', A @ Q)"
    unfolding s_def by (rule getScheme_https)
  have Aq: "CHR ''?'' \<notin> set A" using A_chars by auto
  have qq: "CHR ''?'' \<notin> set q" using q_chars by auto
  have force: "\<not> HasSuffix (A @ Q) ''?''"
  proof (cases "q = []")
    case True
    then have "A @ Q = A" by (simp add: Q_def)
    moreover have "A \<noteq> []" by (simp add: A_def)
    ultimately show ?thesis using Aq last_in_set [of A] by (metis HasSuffix_char)
  next
    case False
    then have "last (A @ Q) = last q" by (simp add: Q_def)
    then show ?thesis using qq False last_in_set [of q] by (metis HasSuffix_char)
  qed
  have cutq: "Cut (A @ Q) CHR ''?'' = (A, q, q \<noteq> [])"
    using Cut_absent [OF Aq] Cut_present [OF Aq, of q] by (simp add: Q_def)
  have pre: "HasPrefix A ''/''" "HasPrefix A ''//''"
    by (simp_all add: A_def HasPrefix_def)
  have hs: "CHR ''/'' \<notin> set h" using host_chars [OF h] by auto
  have cuta: "Cut (drop 2 A) CHR ''/'' = (h, tl p, p \<noteq> [])"
  proof (cases p)
    case Nil
    then show ?thesis using Cut_absent [OF hs] by (simp add: A_def)
  next
    case (Cons c p')
    with r have "c = CHR ''/''" by simp
    then show ?thesis using Cut_present [OF hs, of p'] Cons by (simp add: A_def)
  qed
  have pp: "(if p \<noteq> [] then CHR ''/'' # tl p else []) = p"
    using r by (cases p) auto
  have parse: "parse s = Inr (emptyURL\<lparr>Scheme := ''https'', Host := h, Path := p, RawQuery := q\<rparr>)"
    unfolding parse_def
    by (simp add: ctl nstar gs lower_https force cutq pre cuta parseAuthority_plain [OF h]
          setPath_path_safe [OF p] pp Let_def emptyURL_def del: HasPrefix_slash)
  show ?thesis
    unfolding s_eq url_Parse_def
    by (simp add: Cut_absent [OF nohash] parse)
qed

lemma JoinPath_path_hd:
  assumes "HasPrefix (EscapedPath u) ''/''"
  shows "JoinPath_path u segs \<noteq> [] \<and> hd (JoinPath_path u segs) = CHR ''/''"
proof -
  have e: "EscapedPath u \<noteq> []" "hd (EscapedPath u) = CHR ''/''"
    using assms by (simp_all add: HasPrefix_slash)
  show ?thesis
    unfolding JoinPath_path_def Let_def
    using assms by (simp add: path_Join_rooted [OF e])
qed

lemma URL_String_buildAddress:
  assumes s: "safe_segments segs"
  shows "URL_String ((JoinPath base_v3 segs)\<lparr>RawQuery := q\<rparr>) =
         ''https://healthchecks.io'' @ JoinPath_path base_v3 segs @
         (if q = [] then [] else CHR ''?'' # q)"
proof -
  let ?p = "JoinPath_path base_v3 segs"
  let ?u = "(JoinPath base_v3 segs)\<lparr>RawQuery := q\<rparr>"
  have ps: "path_safe ?p"
    by (rule JoinPath_path_safe) (simp_all add: EscapedPath_base s path_safe_api_v3)
  have hd: "?p \<noteq> []" "hd ?p = CHR ''/''"
    using JoinPath_path_hd [of base_v3 segs] by (simp_all add: EscapedPath_base HasPrefix_def)
  have u: "?u = base_v3\<lparr>Path := ?p, RawPath := [], RawQuery := q\<rparr>"
    by (simp add: JoinPath_safe [OF ps])
  have "URL_String ?u = ''https://'' @ Host ?u @ Path ?u @ (if RawQuery ?u = [] then [] else CHR ''?'' # RawQuery ?u)"
    unfolding u
    by (rule URL_String_https) (simp_all add: base_fields plain_host_healthchecks ps hd)
  then show ?thesis unfolding u by (simp add: base_fields)
qed

lemma NewRequest_base:
  assumes s: "safe_segments segs" and q: "query_safe q"
  shows "NewRequestWithContext m (URL_String ((JoinPath base_v3 segs)\<lparr>RawQuery := q\<rparr>)) b =
         Inr \<lparr>reqMethod = m,
              reqURL = ''https://healthchecks.io'' @ JoinPath_path base_v3 segs @
                       (if q = [] then [] else CHR ''?'' # q),
              reqHeader = [], reqPayload = b\<rparr>"
proof -
  let ?p = "JoinPath_path base_v3 segs"
  have ps: "path_safe ?p"
    by (rule JoinPath_path_safe) (simp_all add: EscapedPath_base s path_safe_api_v3)
  have hd: "?p = [] \<or> hd ?p = CHR ''/''"
    using JoinPath_path_hd [of base_v3 segs] by (simp_all add: EscapedPath_base HasPrefix_def)
  have "url_Parse (''https://'' @ ''healthchecks.io'' @ ?p @ (if q = [] then [] else CHR ''?'' # q)) =
      Inr (emptyURL\<lparr>Scheme := ''https'', Host := ''healthchecks.io'', Path := ?p, RawQuery := q\<rparr>)"
    by (rule url_Parse_https [OF plain_host_healthchecks ps hd q])
  then show ?thesis
    unfolding URL_String_buildAddress [OF s] NewRequestWithContext_def by simp
qed

subsection \<open>Address construction\<close>

lemma JoinPath_base_RawQuery: "(JoinPath base_v3 segs)\<lparr>RawQuery := []\<rparr> = JoinPath base_v3 segs"
  by (simp add: JoinPath_def setPath_def base_v3_def emptyURL_def split: sum.split)






subsection \<open>The body of a ping\<close>

lemma isDigit_char_of: "k < 10 \<Longrightarrow> isDigit (char_of (48 + (k::nat)))"
  by (simp add: isDigit_def byte_def)

lemma digits_all_digit: "list_all isDigit (digits n)"
proof (induction n rule: digits.induct)
  case (1 n)
  show ?case
  proof (cases "n < 10")
    case True
    then show ?thesis by (subst digits.simps) (simp add: isDigit_char_of)
  next
    case False
    with 1 show ?thesis by (subst digits.simps) (simp add: isDigit_char_of)
  qed
qed

lemma digits_nonempty: "digits n \<noteq> []"
  by (subst digits.simps) simp

lemma uuid_char_facts:
  "uuid_char c \<Longrightarrow> unreserved_char c \<and> c \<noteq> CHR ''/'' \<and> c \<noteq> CHR ''.''"
  using unreserved_not_special [of c]
  by (auto simp: uuid_char_def unreserved_char_def isAlnum_def isLower_def isUpper_def isDigit_def byte_def)

lemma uuid_like_facts:
  assumes "s \<noteq> []" "list_all uuid_char s"
  shows "path_safe s" "elements s = [s]" "s \<noteq> ''.''" "s \<noteq> ''..''"
proof -
  have a: "c \<in> set s \<Longrightarrow> unreserved_char c \<and> c \<noteq> CHR ''/'' \<and> c \<noteq> CHR ''.''" for c
    using assms(2) uuid_char_facts by (auto simp: list_all_iff)
  show "path_safe s"
    using a unreserved_not_escaped by (auto simp: path_safe_def list_all_iff)
  have "CHR ''/'' \<notin> set s" using a by blast
  then show "elements s = [s]" using assms(1) by (simp add: elements_plain)
  have "CHR ''.'' \<notin> set s" using a by blast
  then show "s \<noteq> ''.''" "s \<noteq> ''..''" by auto
qed

lemma isDigit_uuid_char: "isDigit c \<Longrightarrow> uuid_char c"
  by (simp add: uuid_char_def isAlnum_def)

lemma Itoa_uuid_like: "Itoa n \<noteq> [] \<and> list_all uuid_char (Itoa n)"
  using digits_all_digit [of "nat (sint n)"] digits_all_digit [of "nat (- sint n)"]
    digits_nonempty
  by (auto simp: Itoa_def fmt_d_def list_all_iff uuid_char_def isAlnum_def)

lemma elements_lits:
  "elements ''/checks/'' = [''checks'']" "elements ''/pings/'' = [''pings'']"
  "elements ''/body'' = [''body'']" "elements ''/flips/'' = [''flips'']"
  "elements ''/pause'' = [''pause'']" "elements ''/resume'' = [''resume'']"
  "elements ''/start'' = [''start'']" "elements ''/fail'' = [''fail'']"
  by code_simp+

lemma path_safe_lits:
  "path_safe ''/checks/''" "path_safe ''/pings/''" "path_safe ''/body''" "path_safe ''/flips/''"
  "path_safe ''/pause''" "path_safe ''/resume''" "path_safe ''/start''" "path_safe ''/fail''"
  by code_simp+

lemma GetPingBody_path:
  assumes u: "uuid \<noteq> []" "list_all uuid_char uuid"
  shows "safe_segments [''/checks/'', uuid, ''/pings/'', Itoa n, ''/body'']"
    and "JoinPath_path base_v3 [''/checks/'', uuid, ''/pings/'', Itoa n, ''/body''] =
         ''/api/v3/checks/'' @ uuid @ ''/pings/'' @ Itoa n @ ''/body''"
proof -
  note i = Itoa_uuid_like [of n]
  note fu = uuid_like_facts [OF u]
  note fi = uuid_like_facts [OF i [THEN conjunct1] i [THEN conjunct2]]
  show "safe_segments [''/checks/'', uuid, ''/pings/'', Itoa n, ''/body'']"
    by (simp add: safe_segments_def path_safe_lits fu fi del: path_safe_Cons_slash)
  have "dot_free (concat (map elements [''/checks/'', uuid, ''/pings/'', Itoa n, ''/body'']))"
    by (simp add: elements_lits fu fi dot_free_def del: elements_slash)
  then have "JoinPath_path base_v3 [''/checks/'', uuid, ''/pings/'', Itoa n, ''/body''] =
      ''/api/v3'' @ joined [''/checks/'', uuid, ''/pings/'', Itoa n, ''/body'']"
    by (rule JoinPath_path_base)
  also have "joined [''/checks/'', uuid, ''/pings/'', Itoa n, ''/body''] =
      ''/checks/'' @ uuid @ ''/pings/'' @ Itoa n @ ''/body''"
    by (simp add: joined_def elements_lits fu fi rooted_def HasSuffix_slash del: elements_slash)
  finally show "JoinPath_path base_v3 [''/checks/'', uuid, ''/pings/'', Itoa n, ''/body''] =
         ''/api/v3/checks/'' @ uuid @ ''/pings/'' @ Itoa n @ ''/body''"
    by simp
qed

lemma query_safe_Nil: "query_safe []"
  by (simp add: query_safe_def)

text \<open>
  C10. \<^verbatim>\<open>GetPingBody\<close> checks nothing about \<open>n\<close>: for every 64-bit \<open>n\<close>, zero and
  negative ones included, and every identifier made of letters, digits and hyphens, it
  builds the request for \<^verbatim>\<open>/checks/{uuid}/pings/{n}/body\<close> with \<open>n\<close> in decimal, and
  hands it to the HTTP client: when the answer has status 200 and its body reads to the
  end, the operation returns the text of the body.
\<close>

theorem GetPingBody_sends_every_n:
  assumes "uuid \<noteq> []" and "list_all uuid_char uuid"
  shows "GetPingBody_request e (NewClient key) uuid n =
           Inr \<lparr>reqMethod = ''GET'',
                reqURL = ''https://healthchecks.io/api/v3/checks/'' @ uuid @ ''/pings/'' @ Itoa n @ ''/body'',
                reqHeader = [(''X-Api-Key'', key)], reqPayload = None\<rparr>
         \<and> (case Do e (httpClient (NewClient key))
                   \<lparr>reqMethod = ''GET'',
                    reqURL = ''https://healthchecks.io/api/v3/checks/'' @ uuid @ ''/pings/'' @ Itoa n @ ''/body'',
                    reqHeader = [(''X-Api-Key'', key)], reqPayload = None\<rparr> of
               Inl m \<Rightarrow> GetPingBody e (NewClient key) uuid n = Inl (DoError m)
             | Inr resp \<Rightarrow>
                 if StatusCode resp = 200 \<and> failure (Body resp) = None
                 then GetPingBody e (NewClient key) uuid n = Inr (bytes (Body resp))
                 else True)"
proof -
  let ?segs = "[''/checks/'', uuid, ''/pings/'', Itoa n, ''/body'']"
  note p = GetPingBody_path [OF assms, of n]
  have r: "GetPingBody_request e (NewClient key) uuid n =
           Inr \<lparr>reqMethod = ''GET'',
                reqURL = ''https://healthchecks.io/api/v3/checks/'' @ uuid @ ''/pings/'' @ Itoa n @ ''/body'',
                reqHeader = [(''X-Api-Key'', key)], reqPayload = None\<rparr>"
  proof -
    have nr: "NewRequestWithContext ''GET'' (URL_String (JoinPath base_v3 ?segs)) None =
        Inr \<lparr>reqMethod = ''GET'',
             reqURL = ''https://healthchecks.io/api/v3/checks/'' @ uuid @ ''/pings/'' @ Itoa n @ ''/body'',
             reqHeader = [], reqPayload = None\<rparr>"
      using NewRequest_base [OF p(1) query_safe_Nil, of "''GET''" None]
      unfolding JoinPath_base_RawQuery p(2) by simp
    show ?thesis
      unfolding GetPingBody_request_def buildAddress_NewClient
      by (simp add: nr Header_Set_def NewClient_def)
  qed
  show ?thesis
    unfolding GetPingBody_def r
    by (simp add: ReadAll_def split: sum.split)
qed

lemma Itoa_minus_one: "Itoa (- 1) = ''-1''"
  by code_simp

theorem GetPingBody_sends_every_n_witness:
  "GetPingBody_request (env_reply 200 ''example body'' zero_Error None) (NewClient ''k'') ''abc'' (- 1) =
     Inr \<lparr>reqMethod = ''GET'', reqURL = ''https://healthchecks.io/api/v3/checks/abc/pings/-1/body'',
          reqHeader = [(''X-Api-Key'', ''k'')], reqPayload = None\<rparr>
   \<and> GetPingBody (env_reply 200 ''example body'' zero_Error None) (NewClient ''k'') ''abc'' (- 1) =
     Inr ''example body''"
proof -
  have a: "''abc'' \<noteq> []" "list_all uuid_char ''abc''"
    by code_simp+
  from GetPingBody_sends_every_n [OF a, of "env_reply 200 ''example body'' zero_Error None" "''k''" "- 1"]
  show ?thesis
    by (simp add: Itoa_minus_one env_reply_def)
qed

end
